theory Spec2Isabelle
  imports Main "HOL-Library.AList"
begin

section \<open>The browser environment\<close>

text \<open>
  The provider of \<^verbatim>\<open>src/app.tsx\<close> keeps its data in two Web Storage objects,
  \<^verbatim>\<open>localStorage\<close> (durable) and \<^verbatim>\<open>sessionStorage\<close> (tab-scoped). The source wraps
  most of its storage calls in \<^verbatim>\<open>try/catch\<close>, so the calls are modelled with the two ways
  they can throw: reaching the storage object raises \<^verbatim>\<open>SecurityError\<close> when the browser denies
  storage to the page, and \<^verbatim>\<open>setItem\<close> raises \<^verbatim>\<open>QuotaExceededError\<close> when the new value
  does not fit. \<^verbatim>\<open>JSON.parse\<close> raises \<^verbatim>\<open>SyntaxError\<close> on malformed text.
\<close>

datatype exn = SecurityError | QuotaExceededError | SyntaxError

text \<open>
  A storage object: its entries in key order, its capacity in characters, and whether the
  browser denies access to it.
\<close>

record storage =
  items :: "(string \<times> string) list"
  quota :: nat
  disabled :: bool

definition usage :: "(string \<times> string) list \<Rightarrow> nat" where
  "usage kvs = sum_list (map (\<lambda>(k, v). length k + length v) kvs)"

definition getItem :: "storage \<Rightarrow> string \<Rightarrow> exn + string option" where
  "getItem st k = (if disabled st then Inl SecurityError else Inr (map_of (items st) k))"

definition setItem :: "storage \<Rightarrow> string \<Rightarrow> string \<Rightarrow> exn + storage" where
  "setItem st k v =
     (if disabled st then Inl SecurityError
      else let kvs = AList.update k v (items st)
           in if quota st < usage kvs then Inl QuotaExceededError
              else Inr (st\<lparr>items := kvs\<rparr>))"

definition removeItem :: "storage \<Rightarrow> string \<Rightarrow> exn + storage" where
  "removeItem st k =
     (if disabled st then Inl SecurityError
      else Inr (st\<lparr>items := AList.delete k (items st)\<rparr>))"

text \<open>What a storage object holds under a key, read without going through the API.\<close>

definition holds :: "storage \<Rightarrow> string \<Rightarrow> string option" where
  "holds st k = map_of (items st) k"

section \<open>Data model\<close>

text \<open>
  \<^verbatim>\<open>publicUser = { username, name }\<close> and \<^verbatim>\<open>newUser = { username, password, name }\<close>.
  The name is optional (\<^verbatim>\<open>undefined\<close> is \<open>None\<close>).
\<close>

record public_user =
  username :: string
  name :: "string option"

record account = public_user +
  password :: string

text \<open>The result objects \<^verbatim>\<open>{ success: true }\<close> and \<^verbatim>\<open>{ success: false, message }\<close>.\<close>

datatype result = Success | Failure string

text \<open>
  \<^verbatim>\<open>JSON.stringify\<close> and \<^verbatim>\<open>JSON.parse\<close> belong to the platform; the provider uses them
  at two types. They are a parameter of the model, and every theorem below holds for each
  choice of them.
\<close>

record json_api =
  stringify_user :: "public_user \<Rightarrow> string"
  stringify_users :: "account list \<Rightarrow> string"
  parse_user :: "string \<Rightarrow> exn + public_user option"
  parse_users :: "string \<Rightarrow> exn + account list"

definition LOCAL_USERS_KEY :: string where
  "LOCAL_USERS_KEY = ''demo_users_v1''"

definition AUTH_USER_KEY :: string where
  "AUTH_USER_KEY = ''demo_auth_user_v1''"

definition AUTH_TOKEN_KEY :: string where
  "AUTH_TOKEN_KEY = ''demo_auth_token_v1''"

datatype backend = Local | Session

text \<open>A call made to \<^verbatim>\<open>setItem\<close> or \<^verbatim>\<open>removeItem\<close>, whether or not it threw.\<close>

datatype storage_call = SetItem backend string string | RemoveItem backend string

fun call_key :: "storage_call \<Rightarrow> string" where
  "call_key (SetItem b k v) = k"
| "call_key (RemoveItem b k) = k"

text \<open>
  The three \<^verbatim>\<open>useState\<close> cells of \<^verbatim>\<open>AuthProvider\<close>, the two storage objects, the lines
  written with \<^verbatim>\<open>console.error\<close>, and the record of the storage calls made so far.
\<close>

record state =
  users :: "account list"
  user :: "public_user option"
  token :: "string option"
  localStorage :: storage
  sessionStorage :: storage
  console :: "(string \<times> exn) list"
  journal :: "storage_call list"

type_synonym 'a action = "state \<Rightarrow> (exn + 'a) \<times> state"

section \<open>Statements, blocks and try/catch\<close>

fun storage_of :: "backend \<Rightarrow> state \<Rightarrow> storage" where
  "storage_of Local s = localStorage s"
| "storage_of Session s = sessionStorage s"

fun storage_put :: "backend \<Rightarrow> storage \<Rightarrow> state \<Rightarrow> state" where
  "storage_put Local st s = s\<lparr>localStorage := st\<rparr>"
| "storage_put Session st s = s\<lparr>sessionStorage := st\<rparr>"

definition call_setItem :: "backend \<Rightarrow> string \<Rightarrow> string \<Rightarrow> unit action" where
  "call_setItem b k v s =
     (let s1 = s\<lparr>journal := journal s @ [SetItem b k v]\<rparr>
      in case setItem (storage_of b s1) k v of
           Inl e \<Rightarrow> (Inl e, s1)
         | Inr st \<Rightarrow> (Inr (), storage_put b st s1))"

definition call_removeItem :: "backend \<Rightarrow> string \<Rightarrow> unit action" where
  "call_removeItem b k s =
     (let s1 = s\<lparr>journal := journal s @ [RemoveItem b k]\<rparr>
      in case removeItem (storage_of b s1) k of
           Inl e \<Rightarrow> (Inl e, s1)
         | Inr st \<Rightarrow> (Inr (), storage_put b st s1))"

definition console_error :: "string \<Rightarrow> exn \<Rightarrow> unit action" where
  "console_error msg err s = (Inr (), s\<lparr>console := console s @ [(msg, err)]\<rparr>)"

text \<open>Statements in sequence: the first one that throws ends the block.\<close>

fun block :: "unit action list \<Rightarrow> unit action" where
  "block [] s = (Inr (), s)"
| "block (c # cs) s =
     (case c s of
        (Inl e, s') \<Rightarrow> (Inl e, s')
      | (Inr _, s') \<Rightarrow> block cs s')"

definition try_catch :: "'a action \<Rightarrow> (exn \<Rightarrow> 'a action) \<Rightarrow> 'a action" where
  "try_catch body handler s =
     (case body s of
        (Inl e, s') \<Rightarrow> handler e s'
      | (Inr v, s') \<Rightarrow> (Inr v, s'))"

text \<open>JavaScript truthiness of a string or \<^verbatim>\<open>null\<close>, and the lazy \<^verbatim>\<open>a || b\<close>.\<close>

fun truthy :: "string option \<Rightarrow> bool" where
  "truthy None = False"
| "truthy (Some v) = (v \<noteq> [])"

definition or_else :: "exn + string option \<Rightarrow> exn + string option \<Rightarrow> exn + string option" where
  "or_else a b =
     (case a of
        Inl e \<Rightarrow> Inl e
      | Inr x \<Rightarrow> if truthy x then Inr x else b)"

text \<open>An initializer of the shape \<^verbatim>\<open>try { return e } catch { return d }\<close>.\<close>

definition catch_return :: "exn + 'a \<Rightarrow> 'a \<Rightarrow> exn + 'a" where
  "catch_return body d = (case body of Inl e \<Rightarrow> Inr d | Inr v \<Rightarrow> Inr v)"

section \<open>AuthProvider\<close>

subsection \<open>The useState initializers (lines 27-52)\<close>

definition init_users :: "json_api \<Rightarrow> storage \<Rightarrow> exn + account list" where
  "init_users J l =
     catch_return
       (case getItem l LOCAL_USERS_KEY of
          Inl e \<Rightarrow> Inl e
        | Inr raw \<Rightarrow> if truthy raw then parse_users J (the raw) else Inr [])
       []"

definition init_user :: "json_api \<Rightarrow> storage \<Rightarrow> storage \<Rightarrow> exn + public_user option" where
  "init_user J l ss =
     catch_return
       (case or_else (getItem l AUTH_USER_KEY) (getItem ss AUTH_USER_KEY) of
          Inl e \<Rightarrow> Inl e
        | Inr raw \<Rightarrow> if truthy raw then parse_user J (the raw) else Inr None)
       None"

definition init_token :: "storage \<Rightarrow> storage \<Rightarrow> exn + string option" where
  "init_token l ss =
     catch_return
       (or_else (or_else (getItem l AUTH_TOKEN_KEY) (getItem ss AUTH_TOKEN_KEY)) (Inr None))
       None"

text \<open>
  The first render over the storage objects of \<open>s\<close>: the three cells are initialised from
  storage; nothing else of \<open>s\<close> is read.
\<close>

definition AuthProvider_init :: "json_api \<Rightarrow> state \<Rightarrow> exn + state" where
  "AuthProvider_init J s =
     (case init_users J (localStorage s) of
        Inl e \<Rightarrow> Inl e
      | Inr us \<Rightarrow>
          (case init_user J (localStorage s) (sessionStorage s) of
             Inl e \<Rightarrow> Inl e
           | Inr u \<Rightarrow>
               (case init_token (localStorage s) (sessionStorage s) of
                  Inl e \<Rightarrow> Inl e
                | Inr t \<Rightarrow> Inr (s\<lparr>users := us, user := u, token := t\<rparr>))))"

subsection \<open>The users effect (lines 55-61)\<close>

definition users_effect :: "json_api \<Rightarrow> unit action" where
  "users_effect J s =
     try_catch
       (call_setItem Local LOCAL_USERS_KEY (stringify_users J (users s)))
       (console_error ''Could not save users'')
       s"

subsection \<open>persistAuth (lines 64-80)\<close>

definition persistAuth_body :: "json_api \<Rightarrow> public_user \<Rightarrow> string \<Rightarrow> bool \<Rightarrow> unit action" where
  "persistAuth_body J userObj tokenStr remember =
     (if remember then
        block [call_setItem Local AUTH_USER_KEY (stringify_user J userObj),
               call_setItem Local AUTH_TOKEN_KEY tokenStr,
               call_removeItem Session AUTH_USER_KEY,
               call_removeItem Session AUTH_TOKEN_KEY]
      else
        block [call_setItem Session AUTH_USER_KEY (stringify_user J userObj),
               call_setItem Session AUTH_TOKEN_KEY tokenStr,
               call_removeItem Local AUTH_USER_KEY,
               call_removeItem Local AUTH_TOKEN_KEY])"

definition persistAuth :: "json_api \<Rightarrow> public_user \<Rightarrow> string \<Rightarrow> bool \<Rightarrow> unit action" where
  "persistAuth J userObj tokenStr remember =
     try_catch (persistAuth_body J userObj tokenStr remember) (console_error ''persistAuth error'')"

subsection \<open>register, login, logout (lines 83-126)\<close>

text \<open>
  \<open>rnd\<close> is the string \<^verbatim>\<open>Math.random().toString(36).slice(2)\<close> of the call.
\<close>

definition register ::
  "json_api \<Rightarrow> string \<Rightarrow> string \<Rightarrow> string option \<Rightarrow> bool \<Rightarrow> string \<Rightarrow> result action" where
  "register J uname pw nm remember rnd s =
     (if uname = [] \<or> pw = [] then (Inr (Failure ''Provide username and password''), s)
      else if list_ex (\<lambda>u. username u = uname) (users s)
        then (Inr (Failure ''User already exists''), s)
      else
        let newUser = \<lparr>username = uname, name = nm, password = pw\<rparr>;
            newUsers = users s @ [newUser];
            s1 = s\<lparr>users := newUsers\<rparr>;
            fakeToken = ''t_'' @ rnd;
            publicUser = \<lparr>username = username newUser, name = name newUser\<rparr>;
            s2 = s1\<lparr>user := Some publicUser\<rparr>;
            s3 = s2\<lparr>token := Some fakeToken\<rparr>
        in case persistAuth J publicUser fakeToken remember s3 of
             (Inl e, s4) \<Rightarrow> (Inl e, s4)
           | (Inr _, s4) \<Rightarrow> (Inr Success, s4))"

definition login :: "json_api \<Rightarrow> string \<Rightarrow> string \<Rightarrow> bool \<Rightarrow> string \<Rightarrow> result action" where
  "login J uname pw remember rnd s =
     (case find (\<lambda>u. username u = uname \<and> password u = pw) (users s) of
        None \<Rightarrow> (Inr (Failure ''Invalid credentials''), s)
      | Some found \<Rightarrow>
          let fakeToken = ''t_'' @ rnd;
              publicUser = \<lparr>username = username found, name = name found\<rparr>;
              s1 = s\<lparr>user := Some publicUser\<rparr>;
              s2 = s1\<lparr>token := Some fakeToken\<rparr>
          in case persistAuth J publicUser fakeToken remember s2 of
               (Inl e, s3) \<Rightarrow> (Inl e, s3)
             | (Inr _, s3) \<Rightarrow> (Inr Success, s3))"

definition logout :: "unit action" where
  "logout s =
     (let s1 = s\<lparr>user := None\<rparr>;
          s2 = s1\<lparr>token := None\<rparr>
      in block [call_removeItem Session AUTH_USER_KEY,
                call_removeItem Session AUTH_TOKEN_KEY,
                call_removeItem Local AUTH_USER_KEY,
                call_removeItem Local AUTH_TOKEN_KEY] s2)"

definition isAuthenticated :: "state \<Rightarrow> bool" where
  "isAuthenticated s = truthy (token s)"

subsection \<open>Rendering\<close>

text \<open>
  After a handler has run, the component renders again and React runs the users effect
  when its dependency \<^verbatim>\<open>users\<close> has changed. The handlers only ever replace \<^verbatim>\<open>users\<close> by
  a longer array, so a changed array and a new array are the same thing here.
\<close>

definition dispatch :: "json_api \<Rightarrow> 'a action \<Rightarrow> 'a action" where
  "dispatch J handler s =
     (case handler s of
        (r, s') \<Rightarrow>
          if users s' = users s then (r, s')
          else (case users_effect J s' of
                  (Inl e, s'') \<Rightarrow> (Inl e, s'')
                | (Inr _, s'') \<Rightarrow> (r, s'')))"

text \<open>Mounting: the initializers, then the users effect of the first render.\<close>

definition AuthProvider_mount :: "json_api \<Rightarrow> state \<Rightarrow> (exn + unit) \<times> state" where
  "AuthProvider_mount J s =
     (case AuthProvider_init J s of
        Inl e \<Rightarrow> (Inl e, s)
      | Inr s' \<Rightarrow> users_effect J s')"

section \<open>The forms (lines 164-172 and 212-220)\<close>

text \<open>
  \<^verbatim>\<open>String.prototype.trim\<close> removes the white space and the line terminators of ECMAScript
  from both ends. A character of the model is a code unit below 256 (\<open>CHR 0xA0\<close> is U+00A0),
  and of these the white space and line terminators are TAB, LF, VT, FF, CR, SP and the
  no-break space U+00A0. The others (U+1680, U+2000 to U+200A, U+2028, U+2029, U+202F,
  U+205F, U+3000, U+FEFF) lie above 255, so no string of the model contains them.
\<close>

definition white_space :: "char \<Rightarrow> bool" where
  "white_space c =
     (c \<in> set [CHR 0x09, CHR 0x0A, CHR 0x0B, CHR 0x0C, CHR 0x0D, CHR 0x20, CHR 0xA0])"

definition trim :: "string \<Rightarrow> string" where
  "trim str = rev (dropWhile white_space (rev (dropWhile white_space str)))"

text \<open>
  The fields of a form are its \<^verbatim>\<open>useState\<close> cells. A submit handler calls the provider
  and then only sets the message and clears the fields, which is presentation; the model
  returns what the provider returned.
\<close>

record register_form =
  rf_username :: string
  rf_password :: string
  rf_name :: string
  rf_remember :: bool

definition RegisterForm_handleSubmit :: "json_api \<Rightarrow> register_form \<Rightarrow> string \<Rightarrow> result action" where
  "RegisterForm_handleSubmit J f rnd =
     dispatch J (register J (trim (rf_username f)) (rf_password f) (Some (trim (rf_name f)))
                   (rf_remember f) rnd)"

record login_form =
  lf_username :: string
  lf_password :: string
  lf_remember :: bool

definition LoginForm_handleSubmit :: "json_api \<Rightarrow> login_form \<Rightarrow> string \<Rightarrow> result action" where
  "LoginForm_handleSubmit J f rnd =
     dispatch J (login J (trim (lf_username f)) (lf_password f) (lf_remember f) rnd)"

section \<open>Runs of the application\<close>

datatype event =
  Register string string "string option" bool string
| Login string string bool string
| Logout
| Reload

fun step :: "json_api \<Rightarrow> event \<Rightarrow> state \<Rightarrow> state" where
  "step J (Register uname pw nm remember rnd) s = snd (dispatch J (register J uname pw nm remember rnd) s)"
| "step J (Login uname pw remember rnd) s = snd (dispatch J (login J uname pw remember rnd) s)"
| "step J Logout s = snd (dispatch J logout s)"
| "step J Reload s = snd (AuthProvider_mount J s)"

fun run :: "json_api \<Rightarrow> event list \<Rightarrow> state \<Rightarrow> state" where
  "run J [] s = s"
| "run J (e # es) s = run J es (step J e s)"

text \<open>A browser profile that has never run the application, with working storage.\<close>

definition fresh :: "nat \<Rightarrow> nat \<Rightarrow> state" where
  "fresh ql qs =
     \<lparr>users = [], user = None, token = None,
      localStorage = \<lparr>items = [], quota = ql, disabled = False\<rparr>,
      sessionStorage = \<lparr>items = [], quota = qs, disabled = False\<rparr>,
      console = [], journal = []\<rparr>"

definition start :: "json_api \<Rightarrow> nat \<Rightarrow> nat \<Rightarrow> state" where
  "start J ql qs = snd (AuthProvider_mount J (fresh ql qs))"

section \<open>A sample platform and sample states\<close>

text \<open>
  A concrete \<^verbatim>\<open>JSON\<close> for evaluating the model on examples. The printer writes the
  object keys in the order of the source's object literals and escapes the quote and the
  backslash; it is \<^verbatim>\<open>JSON.stringify\<close> on text without control characters. The parser
  reads back what the printer writes for text without escapes and rejects everything else
  with \<^verbatim>\<open>SyntaxError\<close>.
\<close>

definition json_string :: "string \<Rightarrow> string" where
  "json_string str =
     [CHR 0x22]
     @ concat (map (\<lambda>c. if c = CHR 0x22 \<or> c = CHR 0x5C then [CHR 0x5C, c] else [c]) str)
     @ [CHR 0x22]"

definition json_field :: "string \<Rightarrow> string \<Rightarrow> string" where
  "json_field k v = json_string k @ '':'' @ json_string v"

fun json_object :: "string list \<Rightarrow> string" where
  "json_object [] = ''{}''"
| "json_object (f # fs) = ''{'' @ f @ concat (map (\<lambda>g. '','' @ g) fs) @ ''}''"

fun json_array :: "string list \<Rightarrow> string" where
  "json_array [] = ''[]''"
| "json_array (x # xs) = ''['' @ x @ concat (map (\<lambda>y. '','' @ y) xs) @ '']''"

definition name_field :: "string option \<Rightarrow> string list" where
  "name_field nm = (case nm of None \<Rightarrow> [] | Some n \<Rightarrow> [json_field ''name'' n])"

definition print_user :: "public_user \<Rightarrow> string" where
  "print_user u = json_object (json_field ''username'' (username u) # name_field (name u))"

definition print_account :: "account \<Rightarrow> string" where
  "print_account a =
     json_object ([json_field ''username'' (username a), json_field ''password'' (password a)]
                  @ name_field (name a))"

definition print_users :: "account list \<Rightarrow> string" where
  "print_users us = json_array (map print_account us)"

fun strip :: "string \<Rightarrow> string \<Rightarrow> string option" where
  "strip [] str = Some str"
| "strip (p # ps) [] = None"
| "strip (p # ps) (c # cs) = (if p = c then strip ps cs else None)"

fun read_chars :: "string \<Rightarrow> (string \<times> string) option" where
  "read_chars [] = None"
| "read_chars (c # cs) =
     (if c = CHR 0x22 then Some ([], cs)
      else if c = CHR 0x5C then None
      else (case read_chars cs of None \<Rightarrow> None | Some (v, r) \<Rightarrow> Some (c # v, r)))"

definition read_field :: "string \<Rightarrow> string \<Rightarrow> (string \<times> string) option" where
  "read_field k str =
     (case strip (json_string k @ '':'' @ [CHR 0x22]) str of
        None \<Rightarrow> None
      | Some r \<Rightarrow> read_chars r)"

definition read_name :: "string \<Rightarrow> (string option \<times> string) option" where
  "read_name str =
     (case strip '','' str of
        None \<Rightarrow> Some (None, str)
      | Some r \<Rightarrow> (case read_field ''name'' r of None \<Rightarrow> None | Some (n, r') \<Rightarrow> Some (Some n, r')))"

definition read_user :: "string \<Rightarrow> (public_user \<times> string) option" where
  "read_user str =
     (case strip ''{'' str of
        None \<Rightarrow> None
      | Some r0 \<Rightarrow>
          (case read_field ''username'' r0 of
             None \<Rightarrow> None
           | Some (u, r1) \<Rightarrow>
               (case read_name r1 of
                  None \<Rightarrow> None
                | Some (n, r2) \<Rightarrow>
                    (case strip ''}'' r2 of
                       None \<Rightarrow> None
                     | Some r3 \<Rightarrow> Some (\<lparr>username = u, name = n\<rparr>, r3)))))"

definition read_account :: "string \<Rightarrow> (account \<times> string) option" where
  "read_account str =
     (case strip ''{'' str of
        None \<Rightarrow> None
      | Some r0 \<Rightarrow>
          (case read_field ''username'' r0 of
             None \<Rightarrow> None
           | Some (u, r1) \<Rightarrow>
               (case strip '','' r1 of
                  None \<Rightarrow> None
                | Some r2 \<Rightarrow>
                    (case read_field ''password'' r2 of
                       None \<Rightarrow> None
                     | Some (p, r3) \<Rightarrow>
                         (case read_name r3 of
                            None \<Rightarrow> None
                          | Some (n, r4) \<Rightarrow>
                              (case strip ''}'' r4 of
                                 None \<Rightarrow> None
                               | Some r5 \<Rightarrow>
                                   Some (\<lparr>username = u, name = n, password = p\<rparr>, r5)))))))"

fun read_accounts :: "nat \<Rightarrow> string \<Rightarrow> account list option" where
  "read_accounts 0 str = None"
| "read_accounts (Suc n) str =
     (case read_account str of
        None \<Rightarrow> None
      | Some (a, r) \<Rightarrow>
          if r = '']'' then Some [a]
          else (case strip '','' r of
                  None \<Rightarrow> None
                | Some r' \<Rightarrow> map_option (Cons a) (read_accounts n r')))"

definition read_user_text :: "string \<Rightarrow> exn + public_user option" where
  "read_user_text str =
     (if str = ''null'' then Inr None
      else (case read_user str of
              Some (u, []) \<Rightarrow> Inr (Some u)
            | _ \<Rightarrow> Inl SyntaxError))"

definition read_users_text :: "string \<Rightarrow> exn + account list" where
  "read_users_text str =
     (if str = ''[]'' then Inr []
      else (case strip ''['' str of
              None \<Rightarrow> Inl SyntaxError
            | Some r \<Rightarrow>
                (case read_accounts (length r) r of
                   None \<Rightarrow> Inl SyntaxError
                 | Some us \<Rightarrow> Inr us)))"

definition sample_json :: json_api where
  "sample_json =
     \<lparr>stringify_user = print_user, stringify_users = print_users,
      parse_user = read_user_text, parse_users = read_users_text\<rparr>"

text \<open>The state after the first mount in a profile with working storage.\<close>

definition sample_start :: state where
  "sample_start = start sample_json 1000 1000"

text \<open>The example of the specification: alice registers with "remember me".\<close>

definition alice_registered :: state where
  "alice_registered =
     run sample_json [Register ''alice'' ''pw1'' (Some ''Alice'') True ''k3j2''] sample_start"

text \<open>
  A profile whose durable storage has no room left, in which alice has registered without
  "remember me".
\<close>

definition durable_full_registered :: state where
  "durable_full_registered =
     run sample_json [Register ''alice'' ''pw1'' (Some ''Alice'') False ''k3j2'']
       (start sample_json 0 1000)"

text \<open>A run that registers, logs out, logs in for the tab only, and reloads the page.\<close>

definition sample_events :: "event list" where
  "sample_events =
     [Register ''alice'' ''pw1'' (Some ''Alice'') True ''k3j2'',
      Logout,
      Login ''alice'' ''pw1'' False ''zz81'',
      Reload]"

text \<open>A profile in which the browser denies the page both storage objects.\<close>

definition denied_profile :: state where
  "denied_profile =
     \<lparr>users = [], user = None, token = None,
      localStorage = \<lparr>items = [], quota = 1000, disabled = True\<rparr>,
      sessionStorage = \<lparr>items = [], quota = 1000, disabled = True\<rparr>,
      console = [], journal = []\<rparr>"

definition denied_logged_in :: state where
  "denied_logged_in =
     run sample_json [Register ''alice'' ''pw1'' (Some ''Alice'') True ''k3j2'']
       (snd (AuthProvider_mount sample_json denied_profile))"

text \<open>A profile in which only the tab-scoped storage is denied.\<close>

definition session_denied_logged_in :: state where
  "session_denied_logged_in =
     run sample_json [Register ''alice'' ''pw1'' (Some ''Alice'') True ''k3j2'']
       (snd (AuthProvider_mount sample_json
          \<lparr>users = [], user = None, token = None,
           localStorage = \<lparr>items = [], quota = 1000, disabled = False\<rparr>,
           sessionStorage = \<lparr>items = [], quota = 1000, disabled = True\<rparr>,
           console = [], journal = []\<rparr>))"

text \<open>Both storage objects hold a session pair when the page loads.\<close>

definition both_hold_pair :: state where
  "both_hold_pair =
     \<lparr>users = [], user = None, token = None,
      localStorage =
        \<lparr>items = [(AUTH_USER_KEY, print_user \<lparr>username = ''alice'', name = Some ''Alice''\<rparr>),
                  (AUTH_TOKEN_KEY, ''t_k3j2'')],
         quota = 1000, disabled = False\<rparr>,
      sessionStorage =
        \<lparr>items = [(AUTH_USER_KEY, print_user \<lparr>username = ''bob'', name = None\<rparr>),
                  (AUTH_TOKEN_KEY, ''t_zz81'')],
         quota = 1000, disabled = False\<rparr>,
      console = [], journal = []\<rparr>"

section \<open>Where the session pair is\<close>

definition pair_present :: "storage \<Rightarrow> bool" where
  "pair_present st = (holds st AUTH_USER_KEY \<noteq> None \<and> holds st AUTH_TOKEN_KEY \<noteq> None)"

definition pair_absent :: "storage \<Rightarrow> bool" where
  "pair_absent st = (holds st AUTH_USER_KEY = None \<and> holds st AUTH_TOKEN_KEY = None)"

definition in_exactly_one :: "state \<Rightarrow> bool" where
  "in_exactly_one s =
     (pair_present (localStorage s) \<and> pair_absent (sessionStorage s)
      \<or> pair_absent (localStorage s) \<and> pair_present (sessionStorage s))"

text \<open>No call of \<^verbatim>\<open>persistAuth\<close> has logged a failure so far.\<close>

definition persisted_cleanly :: "state \<Rightarrow> bool" where
  "persisted_cleanly s = (''persistAuth error'' \<notin> set (map fst (console s)))"

text \<open>
  What a run from fresh storage maintains: the storage objects stay accessible, and as long
  as \<^verbatim>\<open>persistAuth\<close> has not failed the current token is the one stored, in one place.
\<close>

definition session_struct :: "state \<Rightarrow> bool" where
  "session_struct s =
     (case token s of
        None \<Rightarrow> pair_absent (localStorage s) \<and> pair_absent (sessionStorage s)
      | Some t \<Rightarrow>
          t \<noteq> [] \<and>
          (holds (localStorage s) AUTH_TOKEN_KEY = Some t \<and> pair_present (localStorage s)
             \<and> pair_absent (sessionStorage s)
           \<or> pair_absent (localStorage s)
             \<and> holds (sessionStorage s) AUTH_TOKEN_KEY = Some t \<and> pair_present (sessionStorage s)))"

definition run_inv :: "state \<Rightarrow> bool" where
  "run_inv s =
     (\<not> disabled (localStorage s) \<and> \<not> disabled (sessionStorage s)
      \<and> (persisted_cleanly s \<longrightarrow> session_struct s))"

text \<open>
  A storage call on a key of \<open>K\<close> leaves the three cells, the console, the flags of both
  storage objects and every other key as they were, and adds calls on \<open>K\<close> to the journal.
\<close>

definition touches :: "string set \<Rightarrow> state \<Rightarrow> state \<Rightarrow> bool" where
  "touches K s s' =
     (users s' = users s \<and> user s' = user s \<and> token s' = token s \<and> console s' = console s \<and>
      (\<forall>b. disabled (storage_of b s') = disabled (storage_of b s) \<and>
           quota (storage_of b s') = quota (storage_of b s) \<and>
           (\<forall>k. k \<notin> K \<longrightarrow> holds (storage_of b s') k = holds (storage_of b s) k)) \<and>
      (\<exists>cs. journal s' = journal s @ cs \<and> call_key ` set cs \<subseteq> K))"

text \<open>The same, for a call that may also log one line under \<open>msg\<close>.\<close>

definition touches_logging :: "string set \<Rightarrow> string \<Rightarrow> state \<Rightarrow> state \<Rightarrow> bool" where
  "touches_logging K msg s s' =
     (\<exists>s1. touches K s s1 \<and> (s' = s1 \<or> (\<exists>e. s' = s1\<lparr>console := console s1 @ [(msg, e)]\<rparr>)))"

text \<open>
  The state after the lines that \<^verbatim>\<open>register\<close> and \<^verbatim>\<open>login\<close> share: \<^verbatim>\<open>setUser\<close>,
  \<^verbatim>\<open>setToken\<close>, \<^verbatim>\<open>persistAuth\<close>.
\<close>

definition activated :: "json_api \<Rightarrow> public_user \<Rightarrow> string \<Rightarrow> bool \<Rightarrow> state \<Rightarrow> state" where
  "activated J pu rnd remember s =
     snd (persistAuth J pu (''t_'' @ rnd) remember (s\<lparr>user := Some pu, token := Some (''t_'' @ rnd)\<rparr>))"

text \<open>
  The storage calls of an activation, in the specification's words: the pair is written to
  the one storage object chosen by \<^verbatim>\<open>remember\<close>, then the other one's copy is cleared.
\<close>

definition activation_calls :: "json_api \<Rightarrow> public_user \<Rightarrow> string \<Rightarrow> bool \<Rightarrow> storage_call list" where
  "activation_calls J pu tok remember =
     (if remember then
        [SetItem Local AUTH_USER_KEY (stringify_user J pu), SetItem Local AUTH_TOKEN_KEY tok,
         RemoveItem Session AUTH_USER_KEY, RemoveItem Session AUTH_TOKEN_KEY]
      else
        [SetItem Session AUTH_USER_KEY (stringify_user J pu), SetItem Session AUTH_TOKEN_KEY tok,
         RemoveItem Local AUTH_USER_KEY, RemoveItem Local AUTH_TOKEN_KEY])"

section \<open>What restoring a session should read\<close>

text \<open>
  The specification's account of \<^verbatim>\<open>restore\<close>, to compare the initializers with: a storage
  object has a text under a key when it holds a non-empty one (JavaScript's \<^verbatim>\<open>||\<close> and
  \<^verbatim>\<open>raw ? ... : null\<close> treat the empty string as no value), and the durable storage is
  preferred, the session-scoped one being read only if the durable one has none.
\<close>

definition stored :: "storage \<Rightarrow> string \<Rightarrow> string option" where
  "stored st k = (case holds st k of None \<Rightarrow> None | Some v \<Rightarrow> if v = [] then None else Some v)"

definition preferring_durable :: "storage \<Rightarrow> storage \<Rightarrow> string \<Rightarrow> string option" where
  "preferring_durable l ss k = (case stored l k of Some v \<Rightarrow> Some v | None \<Rightarrow> stored ss k)"

text \<open>The user that a stored text stands for; text that does not parse stands for none.\<close>

definition parsed_user :: "json_api \<Rightarrow> string \<Rightarrow> public_user option" where
  "parsed_user J raw = (case parse_user J raw of Inl e \<Rightarrow> None | Inr u \<Rightarrow> u)"

text \<open>
  How a handler may change the session-user key: each storage object afterwards holds under
  it what it held before, or the text \<open>v0\<close>, or nothing, and every \<^verbatim>\<open>setItem\<close> made on
  the key writes \<open>v0\<close>.
\<close>

definition user_entry :: "string \<Rightarrow> state \<Rightarrow> state \<Rightarrow> bool" where
  "user_entry v0 s s' =
     ((\<forall>b. holds (storage_of b s') AUTH_USER_KEY = holds (storage_of b s) AUTH_USER_KEY
           \<or> holds (storage_of b s') AUTH_USER_KEY = Some v0
           \<or> holds (storage_of b s') AUTH_USER_KEY = None)
      \<and> (\<exists>cs. journal s' = journal s @ cs
             \<and> (\<forall>b v. SetItem b AUTH_USER_KEY v \<in> set cs \<longrightarrow> v = v0)))"

section \<open>Basic facts\<close>

lemma keys_distinct [simp]:
  "AUTH_USER_KEY \<noteq> AUTH_TOKEN_KEY" "AUTH_TOKEN_KEY \<noteq> AUTH_USER_KEY"
  "LOCAL_USERS_KEY \<noteq> AUTH_USER_KEY" "LOCAL_USERS_KEY \<noteq> AUTH_TOKEN_KEY"
  "AUTH_USER_KEY \<noteq> LOCAL_USERS_KEY" "AUTH_TOKEN_KEY \<noteq> LOCAL_USERS_KEY"
  by (simp_all add: AUTH_USER_KEY_def AUTH_TOKEN_KEY_def LOCAL_USERS_KEY_def)

lemma holds_setItem:
  "setItem st k v = Inr st' \<Longrightarrow>
     holds st' k' = (if k' = k then Some v else holds st k') \<and> disabled st' = disabled st \<and> quota st' = quota st \<and> \<not> disabled st"
  by (auto simp: setItem_def holds_def Let_def update_conv' split: if_splits)

lemma holds_removeItem:
  "removeItem st k = Inr st' \<Longrightarrow>
     holds st' k' = (if k' = k then None else holds st k') \<and> disabled st' = disabled st \<and> quota st' = quota st \<and> \<not> disabled st"
  by (auto simp: removeItem_def holds_def delete_conv' split: if_splits)

lemma setItem_other: "setItem st k v = Inr st' \<Longrightarrow> k' \<noteq> k \<Longrightarrow> holds st' k' = holds st k'"
  by (simp add: holds_setItem)

lemma setItem_same: "setItem st k v = Inr st' \<Longrightarrow> holds st' k = Some v"
  by (simp add: holds_setItem)

lemma setItem_flags: "setItem st k v = Inr st' \<Longrightarrow> disabled st' = disabled st \<and> quota st' = quota st"
  using holds_setItem by blast

lemma removeItem_other: "removeItem st k = Inr st' \<Longrightarrow> k' \<noteq> k \<Longrightarrow> holds st' k' = holds st k'"
  by (simp add: holds_removeItem)

lemma removeItem_same: "removeItem st k = Inr st' \<Longrightarrow> holds st' k = None"
  by (simp add: holds_removeItem)

lemma removeItem_flags: "removeItem st k = Inr st' \<Longrightarrow> disabled st' = disabled st \<and> quota st' = quota st"
  using holds_removeItem by blast

lemma storage_of_simps [simp]:
  "storage_of b (s\<lparr>journal := j\<rparr>) = storage_of b s"
  "storage_of b (s\<lparr>console := c\<rparr>) = storage_of b s"
  "storage_of b (s\<lparr>users := us\<rparr>) = storage_of b s"
  "storage_of b (s\<lparr>user := u\<rparr>) = storage_of b s"
  "storage_of b (s\<lparr>token := t\<rparr>) = storage_of b s"
  by (cases b; simp)+

lemma storage_of_put [simp]:
  "storage_of b' (storage_put b st s) = (if b' = b then st else storage_of b' s)"
  by (cases b; cases b'; simp)

lemma storage_put_fields [simp]:
  "users (storage_put b st s) = users s"
  "user (storage_put b st s) = user s"
  "token (storage_put b st s) = token s"
  "console (storage_put b st s) = console s"
  "journal (storage_put b st s) = journal s"
  by (cases b; simp)+

text \<open>A relation that every statement of a block respects is respected by the block.\<close>

lemma block_related:
  assumes "\<And>s. R s s"
    and "\<And>s s' s''. R s s' \<Longrightarrow> R s' s'' \<Longrightarrow> R s s''"
    and "\<And>c s. c \<in> set cs \<Longrightarrow> R s (snd (c s))"
  shows "R s (snd (block cs s))"
  using assms(3)
proof (induction cs arbitrary: s)
  case Nil
  show ?case by (simp add: assms(1))
next
  case (Cons c cs)
  have 1: "R s (snd (c s))" using Cons.prems by simp
  show ?case
  proof (cases "c s")
    case (Pair r s')
    show ?thesis
    proof (cases r)
      case (Inl e)
      with Pair 1 show ?thesis by simp
    next
      case (Inr u)
      have "R s' (snd (block cs s'))" using Cons by simp
      with Pair Inr 1 assms(2)[of s s' "snd (block cs s')"] show ?thesis by simp
    qed
  qed
qed

lemma touches_refl: "touches K s s"
  by (simp add: touches_def)

lemma touches_trans: "touches K s s' \<Longrightarrow> touches K s' s'' \<Longrightarrow> touches K s s''"
  unfolding touches_def by (elim conjE exE) (auto)

lemma touches_setItem: "k \<in> K \<Longrightarrow> touches K s (snd (call_setItem b k v s))"
  unfolding touches_def call_setItem_def Let_def
  by (auto split: sum.splits simp: setItem_flags dest: setItem_other)

lemma touches_removeItem: "k \<in> K \<Longrightarrow> touches K s (snd (call_removeItem b k s))"
  unfolding touches_def call_removeItem_def Let_def
  by (auto split: sum.splits simp: removeItem_flags dest: removeItem_other)

lemma touches_block:
  "(\<And>c s. c \<in> set cs \<Longrightarrow> touches K s (snd (c s))) \<Longrightarrow> touches K s (snd (block cs s))"
  by (rule block_related[where R = "touches K"]) (auto intro: touches_refl touches_trans)

lemma touches_persistAuth_body:
  "touches {AUTH_USER_KEY, AUTH_TOKEN_KEY} s (snd (persistAuth_body J u t r s))"
  unfolding persistAuth_body_def
  by (cases r; simp only: if_True if_False; rule touches_block) (auto intro: touches_setItem touches_removeItem)

lemma call_setItem_Inr:
  assumes "call_setItem b k v s = (Inr u, s')"
  shows "holds (storage_of b s') k = Some v"
    and "b' \<noteq> b \<or> k' \<noteq> k \<Longrightarrow> holds (storage_of b' s') k' = holds (storage_of b' s) k'"
    and "\<not> disabled (storage_of b s)"
  using assms unfolding call_setItem_def Let_def
  by (auto split: sum.splits simp: setItem_same setItem_other dest: holds_setItem)

lemma call_removeItem_Inr:
  assumes "call_removeItem b k s = (Inr u, s')"
  shows "holds (storage_of b s') k = None"
    and "b' \<noteq> b \<or> k' \<noteq> k \<Longrightarrow> holds (storage_of b' s') k' = holds (storage_of b' s) k'"
    and "\<not> disabled (storage_of b s)"
  using assms unfolding call_removeItem_def Let_def
  by (auto split: sum.splits simp: removeItem_same removeItem_other dest: holds_removeItem)


text \<open>
  The four statements of \<^verbatim>\<open>persistAuth\<close>, with \<open>b\<close> the storage object chosen by
  \<^verbatim>\<open>remember\<close> and \<open>b'\<close> the other one.
\<close>

lemma write_pair_block:
  assumes "block [call_setItem b AUTH_USER_KEY v, call_setItem b AUTH_TOKEN_KEY t,
                  call_removeItem b' AUTH_USER_KEY, call_removeItem b' AUTH_TOKEN_KEY] s = (Inr x, s')"
    and "b \<noteq> b'"
  shows "holds (storage_of b s') AUTH_USER_KEY = Some v"
    and "holds (storage_of b s') AUTH_TOKEN_KEY = Some t"
    and "holds (storage_of b' s') AUTH_USER_KEY = None"
    and "holds (storage_of b' s') AUTH_TOKEN_KEY = None"
proof -
  from assms(1) obtain s1 s2 s3 where
    1: "call_setItem b AUTH_USER_KEY v s = (Inr (), s1)" and
    2: "call_setItem b AUTH_TOKEN_KEY t s1 = (Inr (), s2)" and
    3: "call_removeItem b' AUTH_USER_KEY s2 = (Inr (), s3)" and
    4: "call_removeItem b' AUTH_TOKEN_KEY s3 = (Inr (), s')"
    by (auto split: prod.splits sum.splits)
  have a1: "holds (storage_of b s1) AUTH_USER_KEY = Some v"
    using call_setItem_Inr(1)[OF 1] .
  have a2: "holds (storage_of b s2) AUTH_USER_KEY = Some v"
    using call_setItem_Inr(2)[OF 2, of b AUTH_USER_KEY] a1 by simp
  have b2: "holds (storage_of b s2) AUTH_TOKEN_KEY = Some t"
    using call_setItem_Inr(1)[OF 2] .
  have a3: "holds (storage_of b s3) AUTH_USER_KEY = Some v"
    using call_removeItem_Inr(2)[OF 3, of b AUTH_USER_KEY] a2 assms(2) by simp
  have b3: "holds (storage_of b s3) AUTH_TOKEN_KEY = Some t"
    using call_removeItem_Inr(2)[OF 3, of b AUTH_TOKEN_KEY] b2 assms(2) by simp
  have c3: "holds (storage_of b' s3) AUTH_USER_KEY = None"
    using call_removeItem_Inr(1)[OF 3] .
  show "holds (storage_of b s') AUTH_USER_KEY = Some v"
    using call_removeItem_Inr(2)[OF 4, of b AUTH_USER_KEY] a3 assms(2) by simp
  show "holds (storage_of b s') AUTH_TOKEN_KEY = Some t"
    using call_removeItem_Inr(2)[OF 4, of b AUTH_TOKEN_KEY] b3 assms(2) by simp
  show "holds (storage_of b' s') AUTH_USER_KEY = None"
    using call_removeItem_Inr(2)[OF 4, of b' AUTH_USER_KEY] c3 by simp
  show "holds (storage_of b' s') AUTH_TOKEN_KEY = None"
    using call_removeItem_Inr(1)[OF 4] .
qed

lemma persistAuth_body_True:
  assumes "persistAuth_body J u t True s = (Inr x, s')"
  shows "holds (localStorage s') AUTH_USER_KEY = Some (stringify_user J u)
       \<and> holds (localStorage s') AUTH_TOKEN_KEY = Some t
       \<and> holds (sessionStorage s') AUTH_USER_KEY = None
       \<and> holds (sessionStorage s') AUTH_TOKEN_KEY = None"
  using write_pair_block[of Local _ t Session s x s'] assms
  by (simp add: persistAuth_body_def)

lemma persistAuth_body_False:
  assumes "persistAuth_body J u t False s = (Inr x, s')"
  shows "holds (sessionStorage s') AUTH_USER_KEY = Some (stringify_user J u)
       \<and> holds (sessionStorage s') AUTH_TOKEN_KEY = Some t
       \<and> holds (localStorage s') AUTH_USER_KEY = None
       \<and> holds (localStorage s') AUTH_TOKEN_KEY = None"
  using write_pair_block[of Session _ t Local s x s'] assms
  by (simp add: persistAuth_body_def)

lemma persistAuth_unfold:
  "persistAuth J u t r s =
     (case persistAuth_body J u t r s of
        (Inl e, s1) \<Rightarrow> (Inr (), s1\<lparr>console := console s1 @ [(''persistAuth error'', e)]\<rparr>)
      | (Inr v, s1) \<Rightarrow> (Inr (), s1))"
  by (simp add: persistAuth_def try_catch_def console_error_def split: prod.splits sum.splits)

lemma users_effect_unfold:
  "users_effect J s =
     (case call_setItem Local LOCAL_USERS_KEY (stringify_users J (users s)) s of
        (Inl e, s1) \<Rightarrow> (Inr (), s1\<lparr>console := console s1 @ [(''Could not save users'', e)]\<rparr>)
      | (Inr v, s1) \<Rightarrow> (Inr (), s1))"
  by (simp add: users_effect_def try_catch_def console_error_def split: prod.splits sum.splits)

lemma persistAuth_touches:
  "touches_logging {AUTH_USER_KEY, AUTH_TOKEN_KEY} ''persistAuth error'' s (snd (persistAuth J u t r s))"
  using touches_persistAuth_body[of s J u t r]
  unfolding touches_logging_def persistAuth_unfold
  by (cases "persistAuth_body J u t r s") (auto split: sum.splits)

lemma users_effect_touches:
  "touches_logging {LOCAL_USERS_KEY} ''Could not save users'' s (snd (users_effect J s))"
  using touches_setItem[of LOCAL_USERS_KEY "{LOCAL_USERS_KEY}" s Local "stringify_users J (users s)"]
  unfolding touches_logging_def users_effect_unfold
  by (cases "call_setItem Local LOCAL_USERS_KEY (stringify_users J (users s)) s") (auto split: sum.splits)

lemma persistAuth_returns: "fst (persistAuth J u t r s) = Inr ()"
  by (simp add: persistAuth_unfold split: prod.splits sum.splits)

lemma users_effect_returns: "fst (users_effect J s) = Inr ()"
  by (simp add: users_effect_unfold split: prod.splits sum.splits)


lemma touches_logging_memory:
  assumes "touches_logging K msg s s'"
  shows "users s' = users s" "user s' = user s" "token s' = token s"
  using assms unfolding touches_logging_def touches_def by auto

lemma touches_logging_storage:
  assumes "touches_logging K msg s s'"
  shows "disabled (storage_of b s') = disabled (storage_of b s)"
    and "quota (storage_of b s') = quota (storage_of b s)"
    and "k \<notin> K \<Longrightarrow> holds (storage_of b s') k = holds (storage_of b s) k"
  using assms unfolding touches_logging_def touches_def by auto

lemma touches_logging_journal:
  assumes "touches_logging K msg s s'"
  shows "\<exists>cs. journal s' = journal s @ cs \<and> call_key ` set cs \<subseteq> K"
  using assms unfolding touches_logging_def touches_def by auto

lemma touches_logging_console:
  assumes "touches_logging K msg s s'"
  shows "console s' = console s \<or> (\<exists>e. console s' = console s @ [(msg, e)])"
  using assms unfolding touches_logging_def touches_def by auto

lemma activated_memory:
  "users (activated J pu rnd r s) = users s"
  "user (activated J pu rnd r s) = Some pu"
  "token (activated J pu rnd r s) = Some (''t_'' @ rnd)"
  unfolding activated_def
  using touches_logging_memory[OF persistAuth_touches] by simp_all

lemma register_accepts:
  assumes "uname \<noteq> []" "pw \<noteq> []" "\<not> list_ex (\<lambda>u. username u = uname) (users s)"
  shows "register J uname pw nm remember rnd s =
           (Inr Success,
            activated J \<lparr>username = uname, name = nm\<rparr> rnd remember
              (s\<lparr>users := users s @ [\<lparr>username = uname, name = nm, password = pw\<rparr>]\<rparr>))"
proof -
  let ?s3 = "s\<lparr>users := users s @ [\<lparr>username = uname, name = nm, password = pw\<rparr>],
                user := Some \<lparr>username = uname, name = nm\<rparr>, token := Some (''t_'' @ rnd)\<rparr>"
  obtain s4 where "persistAuth J \<lparr>username = uname, name = nm\<rparr> (''t_'' @ rnd) remember ?s3 = (Inr (), s4)"
    by (metis persistAuth_returns prod.collapse)
  with assms show ?thesis
    by (simp add: register_def activated_def Let_def)
qed

lemma login_accepts:
  assumes "find (\<lambda>u. username u = uname \<and> password u = pw) (users s) = Some a"
  shows "login J uname pw remember rnd s =
           (Inr Success, activated J \<lparr>username = username a, name = name a\<rparr> rnd remember s)"
proof -
  let ?s2 = "s\<lparr>user := Some \<lparr>username = username a, name = name a\<rparr>, token := Some (''t_'' @ rnd)\<rparr>"
  obtain s3 where "persistAuth J \<lparr>username = username a, name = name a\<rparr> (''t_'' @ rnd) remember ?s2 = (Inr (), s3)"
    by (metis persistAuth_returns prod.collapse)
  with assms show ?thesis
    by (simp add: login_def activated_def Let_def)
qed

lemma login_rejects:
  assumes "find (\<lambda>u. username u = uname \<and> password u = pw) (users s) = None"
  shows "login J uname pw remember rnd s = (Inr (Failure ''Invalid credentials''), s)"
  using assms by (simp add: login_def)

lemma dispatch_same_users:
  "users (snd (h s)) = users s \<Longrightarrow> dispatch J h s = h s"
  by (cases "h s") (simp add: dispatch_def)

lemma dispatch_new_users:
  "users (snd (h s)) \<noteq> users s \<Longrightarrow> dispatch J h s = (fst (h s), snd (users_effect J (snd (h s))))"
  using users_effect_returns[of J "snd (h s)"]
  by (cases "h s"; cases "users_effect J (snd (h s))") (auto simp add: dispatch_def)

lemma dispatch_login: "dispatch J (login J uname pw remember rnd) s = login J uname pw remember rnd s"
proof (cases "find (\<lambda>u. username u = uname \<and> password u = pw) (users s)")
  case None
  then show ?thesis by (simp add: dispatch_same_users login_rejects)
next
  case (Some a)
  then show ?thesis by (simp add: dispatch_same_users login_accepts activated_memory)
qed

lemma dispatch_register_accepts:
  assumes "uname \<noteq> []" "pw \<noteq> []" "\<not> list_ex (\<lambda>u. username u = uname) (users s)"
  shows "dispatch J (register J uname pw nm remember rnd) s =
           (Inr Success,
            snd (users_effect J (activated J \<lparr>username = uname, name = nm\<rparr> rnd remember
              (s\<lparr>users := users s @ [\<lparr>username = uname, name = nm, password = pw\<rparr>]\<rparr>))))"
  using assms by (simp add: dispatch_new_users register_accepts activated_memory)

section \<open>Evaluating the sample states\<close>

lemma users_alice_registered:
  "users alice_registered = [\<lparr>username = ''alice'', name = Some ''Alice'', password = ''pw1''\<rparr>]"
  unfolding alice_registered_def sample_start_def by code_simp

section \<open>Registering\<close>

text \<open>
  C2 (as amended). For every state and every call of \<^verbatim>\<open>register\<close> with a non-empty username
  and a non-empty password whose username is the username of an account already in the
  registry, the call returns \<^verbatim>\<open>{success: false, message: "User already exists"}\<close> and the
  whole state is as before: the users array, its durable copy, both storage objects, and no
  storage call has been made.
\<close>

theorem register_duplicate_rejected:
  assumes "uname \<noteq> []" and "pw \<noteq> []"
    and "\<exists>a\<in>set (users s). username a = uname"
  shows "dispatch J (register J uname pw nm remember rnd) s
           = (Inr (Failure ''User already exists''), s)"
  using assms by (simp add: dispatch_def register_def list_ex_iff)

theorem register_duplicate_rejected_witness:
  "dispatch sample_json (register sample_json ''alice'' ''pw2'' (Some ''Alice2'') False ''zz81'')
       alice_registered
     = (Inr (Failure ''User already exists''), alice_registered)"
  by (rule register_duplicate_rejected) (simp_all add: users_alice_registered)

text \<open>
  C2 as stated fails: the check for missing fields comes first (line 84), so registering
  the existing username alice with an empty password is answered with
  "Provide username and password".
\<close>

theorem register_duplicate_empty_password:
  "map username (users alice_registered) = [''alice''] \<and>
   fst (dispatch sample_json (register sample_json ''alice'' [] (Some ''Alice2'') False ''zz81'')
          alice_registered)
     = Inr (Failure ''Provide username and password'')"
  by (simp add: users_alice_registered dispatch_def register_def)

text \<open>
  C3 (as amended). Every call of \<^verbatim>\<open>register\<close> whose username or password is the empty
  string returns \<^verbatim>\<open>{success: false, message: "Provide username and password"}\<close> and leaves
  the whole state as it was, so it makes no storage call. The register form trims the
  username, not the password, before it calls \<^verbatim>\<open>register\<close> (line 166): a submission whose
  username is empty after trimming, or whose password is empty, fails in the same way.
  Trimming is that of \<^verbatim>\<open>String.prototype.trim\<close>, which also removes the no-break space.
\<close>

theorem register_requires_fields:
  "(uname = [] \<or> pw = [] \<longrightarrow>
      dispatch J (register J uname pw nm remember rnd) s
        = (Inr (Failure ''Provide username and password''), s))
   \<and> (trim (rf_username f) = [] \<or> rf_password f = [] \<longrightarrow>
      RegisterForm_handleSubmit J f rnd s
        = (Inr (Failure ''Provide username and password''), s))"
  by (auto simp add: RegisterForm_handleSubmit_def dispatch_def register_def)

theorem register_requires_fields_witness:
  "dispatch sample_json (register sample_json ''carol'' [] None True ''zz81'') alice_registered
     = (Inr (Failure ''Provide username and password''), alice_registered)
   \<and> trim (rf_username \<lparr>rf_username = [CHR 0x20, CHR 0xA0, CHR 0x09], rf_password = ''pw3'',
          rf_name = ''Carol'', rf_remember = True\<rparr>) = []
   \<and> RegisterForm_handleSubmit sample_json
        \<lparr>rf_username = [CHR 0x20, CHR 0xA0, CHR 0x09], rf_password = ''pw3'',
          rf_name = ''Carol'', rf_remember = True\<rparr>
        ''zz81'' alice_registered
     = (Inr (Failure ''Provide username and password''), alice_registered)"
proof -
  have t: "trim (rf_username \<lparr>rf_username = [CHR 0x20, CHR 0xA0, CHR 0x09], rf_password = ''pw3'',
          rf_name = ''Carol'', rf_remember = True\<rparr>) = []"
    by code_simp
  show ?thesis
    using t register_requires_fields[of "''carol''" "[]" sample_json None True "''zz81''" alice_registered
        "\<lparr>rf_username = [CHR 0x20, CHR 0xA0, CHR 0x09], rf_password = ''pw3'',
          rf_name = ''Carol'', rf_remember = True\<rparr>"]
    by simp
qed

text \<open>
  C3 as stated fails: a password of three spaces is empty after trimming, yet the form
  passes it on untrimmed and the registration succeeds; and \<^verbatim>\<open>register\<close> itself trims
  nothing, so a direct call with a username of two spaces succeeds too.
\<close>

theorem register_blank_password_accepted:
  "trim ''   '' = [] \<and>
   fst (RegisterForm_handleSubmit sample_json
          \<lparr>rf_username = ''bob'', rf_password = ''   '', rf_name = ''Bob'', rf_remember = False\<rparr>
          ''zz81'' sample_start) = Inr Success \<and>
   fst (dispatch sample_json (register sample_json ''  '' ''pw3'' None False ''zz81'') sample_start)
     = Inr Success"
  unfolding sample_start_def by code_simp

section \<open>Logging in\<close>

lemma find_Some_holds: "find P xs = Some a \<Longrightarrow> a \<in> set xs \<and> P a"
  by (auto simp: find_Some_iff)

lemma login_outcome:
  "dispatch J (login J uname pw remember rnd) s =
     (case find (\<lambda>u. username u = uname \<and> password u = pw) (users s) of
        None \<Rightarrow> (Inr (Failure ''Invalid credentials''), s)
      | Some a \<Rightarrow> (Inr Success, activated J \<lparr>username = username a, name = name a\<rparr> rnd remember s))"
  by (simp add: dispatch_login login_rejects login_accepts split: option.splits)

section \<open>Logging out\<close>

lemma logout_touches:
  "touches {AUTH_USER_KEY, AUTH_TOKEN_KEY} (s\<lparr>user := None, token := None\<rparr>) (snd (logout s))"
  unfolding logout_def Let_def
  by (rule touches_block) (auto intro: touches_setItem touches_removeItem)

lemma logout_memory:
  "users (snd (logout s)) = users s" "user (snd (logout s)) = None" "token (snd (logout s)) = None"
  using logout_touches[of s] unfolding touches_def by simp_all

lemma dispatch_logout: "dispatch J logout s = logout s"
  by (simp add: dispatch_same_users logout_memory)

lemma users_effect_memory:
  "users (snd (users_effect J s)) = users s"
  "user (snd (users_effect J s)) = user s"
  "token (snd (users_effect J s)) = token s"
  using touches_logging_memory[OF users_effect_touches] by simp_all

text \<open>
  C5. For every state, every non-empty username that no account of the registry has, and every
  non-empty password: \<^verbatim>\<open>register\<close> with them succeeds, and after a \<^verbatim>\<open>logout\<close> the
  \<^verbatim>\<open>login\<close> with the same username and password succeeds. This holds whatever the storage
  objects do, also when \<^verbatim>\<open>logout\<close> throws.
\<close>

theorem register_logout_login:
  assumes "uname \<noteq> []" and "pw \<noteq> []"
    and "\<not> (\<exists>a\<in>set (users s). username a = uname)"
  shows "fst (dispatch J (register J uname pw nm remember rnd) s) = Inr Success
       \<and> fst (dispatch J (login J uname pw remember' rnd')
                (snd (dispatch J logout
                   (snd (dispatch J (register J uname pw nm remember rnd) s))))) = Inr Success"
proof -
  let ?a = "\<lparr>username = uname, name = nm, password = pw\<rparr>"
  let ?s1 = "snd (dispatch J (register J uname pw nm remember rnd) s)"
  let ?s2 = "snd (dispatch J logout ?s1)"
  have fresh: "\<not> list_ex (\<lambda>u. username u = uname) (users s)"
    using assms(3) by (simp add: list_ex_iff)
  have r: "fst (dispatch J (register J uname pw nm remember rnd) s) = Inr Success"
    and u1: "users ?s1 = users s @ [?a]"
    using assms(1,2) fresh
    by (simp_all add: dispatch_register_accepts users_effect_memory activated_memory)
  have u2: "users ?s2 = users s @ [?a]"
    using u1 by (simp add: dispatch_logout logout_memory)
  have "find (\<lambda>u. username u = uname \<and> password u = pw) (users ?s2) \<noteq> None"
    by (auto simp add: u2 find_None_iff intro: exI[of _ ?a])
  then have "fst (dispatch J (login J uname pw remember' rnd') ?s2) = Inr Success"
    by (auto simp add: login_outcome)
  with r show ?thesis by simp
qed

theorem register_logout_login_witness:
  "fst (dispatch sample_json (login sample_json ''bob'' ''pw2'' False ''zz81'')
          (snd (dispatch sample_json logout
             (snd (dispatch sample_json (register sample_json ''bob'' ''pw2'' None True ''q7'')
                alice_registered))))) = Inr Success"
  using register_logout_login[of "''bob''" "''pw2''" alice_registered sample_json None True "''q7''" False "''zz81''"]
  by (simp add: users_alice_registered)

section \<open>What the handlers write\<close>

lemma user_entry_refl: "user_entry v0 s s"
  by (simp add: user_entry_def)

lemma user_entry_trans: "user_entry v0 s s' \<Longrightarrow> user_entry v0 s' s'' \<Longrightarrow> user_entry v0 s s''"
  unfolding user_entry_def
  apply (elim conjE exE)
  apply (rule conjI)
   apply metis
  apply auto
  done

lemma user_entry_set_user: "user_entry v0 s (snd (call_setItem b AUTH_USER_KEY v0 s))"
  unfolding user_entry_def call_setItem_def Let_def
  by (auto split: sum.splits simp: setItem_same)

lemma user_entry_set_other:
  "k \<noteq> AUTH_USER_KEY \<Longrightarrow> user_entry v0 s (snd (call_setItem b k v s))"
  unfolding user_entry_def call_setItem_def Let_def
  by (auto split: sum.splits simp: setItem_other)

lemma user_entry_remove: "user_entry v0 s (snd (call_removeItem b k s))"
  unfolding user_entry_def call_removeItem_def Let_def
  by (cases "k = AUTH_USER_KEY") (auto split: sum.splits simp: removeItem_same removeItem_other)

lemma user_entry_console: "user_entry v0 s (s'\<lparr>console := c\<rparr>) = user_entry v0 s s'"
  by (simp add: user_entry_def)

lemma user_entry_memory:
  "user_entry v0 (s\<lparr>users := us\<rparr>) s' = user_entry v0 s s'"
  "user_entry v0 (s\<lparr>user := u\<rparr>) s' = user_entry v0 s s'"
  "user_entry v0 (s\<lparr>token := t\<rparr>) s' = user_entry v0 s s'"
  by (simp_all add: user_entry_def)

lemma user_entry_persistAuth_body:
  "user_entry (stringify_user J u) s (snd (persistAuth_body J u t r s))"
  unfolding persistAuth_body_def
  by (cases r; simp only: if_True if_False; rule block_related[where R = "user_entry (stringify_user J u)"])
     (auto intro: user_entry_refl user_entry_trans user_entry_set_user user_entry_set_other user_entry_remove)

lemma user_entry_persistAuth:
  "user_entry (stringify_user J u) s (snd (persistAuth J u t r s))"
  using user_entry_persistAuth_body[of J u s t r]
  by (cases "persistAuth_body J u t r s") (auto simp add: persistAuth_unfold user_entry_console split: sum.splits)

lemma user_entry_users_effect: "user_entry v0 s (snd (users_effect J s))"
  using user_entry_set_other[of LOCAL_USERS_KEY v0 s Local "stringify_users J (users s)"]
  by (cases "call_setItem Local LOCAL_USERS_KEY (stringify_users J (users s)) s")
     (auto simp add: users_effect_unfold user_entry_console split: sum.splits)

lemma user_entry_activated: "user_entry (stringify_user J pu) s (activated J pu rnd r s)"
  using user_entry_persistAuth[of J pu "s\<lparr>user := Some pu, token := Some (''t_'' @ rnd)\<rparr>" "''t_'' @ rnd" r]
  by (simp add: activated_def user_entry_memory)


lemma register_outcome:
  "dispatch J (register J uname pw nm remember rnd) s =
     (if uname = [] \<or> pw = [] then (Inr (Failure ''Provide username and password''), s)
      else if list_ex (\<lambda>u. username u = uname) (users s)
        then (Inr (Failure ''User already exists''), s)
      else (Inr Success,
            snd (users_effect J (activated J \<lparr>username = uname, name = nm\<rparr> rnd remember
              (s\<lparr>users := users s @ [\<lparr>username = uname, name = nm, password = pw\<rparr>]\<rparr>)))))"
  by (simp add: dispatch_register_accepts) (auto simp add: dispatch_def register_def)

text \<open>
  C9. After every successful \<^verbatim>\<open>register\<close> the current user is exactly the object with the
  username and the name that were registered, and after every successful \<^verbatim>\<open>login\<close> it is
  exactly the username and the name of an account with the given username and password: the
  type of the public user has no password field. The same holds of what is persisted: every
  \<^verbatim>\<open>setItem\<close> that the call makes on the session-user key, in either storage object, writes
  the serialisation of that public user, and whatever either storage object holds under the
  key afterwards is that serialisation or is what it held before the call.
\<close>

theorem session_user_is_public_part:
  "(fst (dispatch J (register J uname pw nm remember rnd) s) = Inr Success \<longrightarrow>
      user (snd (dispatch J (register J uname pw nm remember rnd) s))
        = Some \<lparr>username = uname, name = nm\<rparr>
      \<and> user_entry (stringify_user J \<lparr>username = uname, name = nm\<rparr>) s
           (snd (dispatch J (register J uname pw nm remember rnd) s)))
   \<and> (fst (dispatch J (login J uname pw remember rnd) s) = Inr Success \<longrightarrow>
      (\<exists>a\<in>set (users s). username a = uname \<and> password a = pw
         \<and> user (snd (dispatch J (login J uname pw remember rnd) s))
              = Some \<lparr>username = username a, name = name a\<rparr>
         \<and> user_entry (stringify_user J \<lparr>username = username a, name = name a\<rparr>) s
              (snd (dispatch J (login J uname pw remember rnd) s))))"
proof (intro conjI impI)
  assume ok: "fst (dispatch J (register J uname pw nm remember rnd) s) = Inr Success"
  let ?pu = "\<lparr>username = uname, name = nm\<rparr>"
  let ?s1 = "s\<lparr>users := users s @ [\<lparr>username = uname, name = nm, password = pw\<rparr>]\<rparr>"
  let ?s2 = "activated J ?pu rnd remember ?s1"
  from ok have r: "snd (dispatch J (register J uname pw nm remember rnd) s) = snd (users_effect J ?s2)"
    by (simp add: register_outcome split: if_splits)
  show "user (snd (dispatch J (register J uname pw nm remember rnd) s)) = Some ?pu"
    by (simp add: r users_effect_memory activated_memory)
  have "user_entry (stringify_user J ?pu) s ?s2"
    using user_entry_activated[of J ?pu ?s1 rnd remember] by (simp add: user_entry_memory)
  then show "user_entry (stringify_user J ?pu) s (snd (dispatch J (register J uname pw nm remember rnd) s))"
    unfolding r using user_entry_users_effect user_entry_trans by blast
next
  assume ok: "fst (dispatch J (login J uname pw remember rnd) s) = Inr Success"
  then obtain a where f: "find (\<lambda>u. username u = uname \<and> password u = pw) (users s) = Some a"
    by (auto simp add: login_outcome split: option.splits)
  then have a: "a \<in> set (users s)" "username a = uname" "password a = pw"
    by (auto dest: find_Some_holds)
  have r: "snd (dispatch J (login J uname pw remember rnd) s)
             = activated J \<lparr>username = username a, name = name a\<rparr> rnd remember s"
    by (simp add: login_outcome f)
  show "\<exists>a\<in>set (users s). username a = uname \<and> password a = pw
         \<and> user (snd (dispatch J (login J uname pw remember rnd) s))
              = Some \<lparr>username = username a, name = name a\<rparr>
         \<and> user_entry (stringify_user J \<lparr>username = username a, name = name a\<rparr>) s
              (snd (dispatch J (login J uname pw remember rnd) s))"
    using a unfolding r
    by (intro bexI[of _ a]) (simp_all add: activated_memory user_entry_activated)
qed

lemma activated_touches:
  "touches_logging {AUTH_USER_KEY, AUTH_TOKEN_KEY} ''persistAuth error''
     (s\<lparr>user := Some pu, token := Some (''t_'' @ rnd)\<rparr>) (activated J pu rnd r s)"
  unfolding activated_def by (rule persistAuth_touches)

text \<open>
  C10. A successful \<^verbatim>\<open>login\<close> leaves the registry as it was: the users array is the same,
  the durable storage holds the same text under the registry key, every storage call it makes
  is on the session-user key or the session-token key, and in both storage objects every
  other key keeps its value. (The users effect does not run, since \<^verbatim>\<open>users\<close> is unchanged.)
\<close>

theorem login_leaves_registry:
  assumes "fst (dispatch J (login J uname pw remember rnd) s) = Inr Success"
  shows "users (snd (dispatch J (login J uname pw remember rnd) s)) = users s
     \<and> holds (localStorage (snd (dispatch J (login J uname pw remember rnd) s))) LOCAL_USERS_KEY
         = holds (localStorage s) LOCAL_USERS_KEY
     \<and> (\<forall>b k. k \<noteq> AUTH_USER_KEY \<and> k \<noteq> AUTH_TOKEN_KEY \<longrightarrow>
           holds (storage_of b (snd (dispatch J (login J uname pw remember rnd) s))) k
             = holds (storage_of b s) k)
     \<and> (\<exists>cs. journal (snd (dispatch J (login J uname pw remember rnd) s)) = journal s @ cs
           \<and> (\<forall>c\<in>set cs. call_key c = AUTH_USER_KEY \<or> call_key c = AUTH_TOKEN_KEY))"
proof -
  from assms obtain a where f: "find (\<lambda>u. username u = uname \<and> password u = pw) (users s) = Some a"
    by (auto simp add: login_outcome split: option.splits)
  let ?pu = "\<lparr>username = username a, name = name a\<rparr>"
  let ?s' = "activated J ?pu rnd remember s"
  have r: "snd (dispatch J (login J uname pw remember rnd) s) = ?s'"
    by (simp add: login_outcome f)
  note t = activated_touches[where s = s and pu = ?pu and rnd = rnd and J = J and r = remember]
  have 1: "users ?s' = users s" by (simp add: activated_memory)
  have 2: "\<And>b k. k \<noteq> AUTH_USER_KEY \<and> k \<noteq> AUTH_TOKEN_KEY \<Longrightarrow>
             holds (storage_of b ?s') k = holds (storage_of b s) k"
    using touches_logging_storage(3)[OF t] by simp
  have 3: "\<exists>cs. journal ?s' = journal s @ cs
             \<and> (\<forall>c\<in>set cs. call_key c = AUTH_USER_KEY \<or> call_key c = AUTH_TOKEN_KEY)"
    using touches_logging_journal[OF t] by auto
  have 4: "holds (localStorage ?s') LOCAL_USERS_KEY = holds (localStorage s) LOCAL_USERS_KEY"
    using 2[of LOCAL_USERS_KEY Local] by simp
  show ?thesis unfolding r using 1 2 3 4 by simp
qed


lemma bob_registers:
  "fst (dispatch sample_json (register sample_json ''bob'' ''pw2'' (Some ''Bob'') False ''q7'')
          alice_registered) = Inr Success"
  by code_simp

lemma alice_logs_in:
  "fst (dispatch sample_json (login sample_json ''alice'' ''pw1'' False ''zz81'') alice_registered)
     = Inr Success"
  by code_simp

theorem session_user_is_public_part_witness:
  "fst (dispatch sample_json (register sample_json ''bob'' ''pw2'' (Some ''Bob'') False ''q7'')
          alice_registered) = Inr Success
   \<and> user (snd (dispatch sample_json (register sample_json ''bob'' ''pw2'' (Some ''Bob'') False ''q7'')
          alice_registered)) = Some \<lparr>username = ''bob'', name = Some ''Bob''\<rparr>
   \<and> user_entry (print_user \<lparr>username = ''bob'', name = Some ''Bob''\<rparr>) alice_registered
        (snd (dispatch sample_json (register sample_json ''bob'' ''pw2'' (Some ''Bob'') False ''q7'')
          alice_registered))
   \<and> fst (dispatch sample_json (login sample_json ''alice'' ''pw1'' False ''zz81'') alice_registered)
        = Inr Success
   \<and> user (snd (dispatch sample_json (login sample_json ''alice'' ''pw1'' False ''zz81'')
          alice_registered)) = Some \<lparr>username = ''alice'', name = Some ''Alice''\<rparr>"
  using session_user_is_public_part[of sample_json "''bob''" "''pw2''" "Some ''Bob''" False "''q7''"
      alice_registered]
    session_user_is_public_part[of sample_json "''alice''" "''pw1''" "Some ''Bob''" False "''zz81''"
      alice_registered]
    bob_registers alice_logs_in
  by (auto simp add: sample_json_def users_alice_registered)

theorem login_leaves_registry_witness:
  "fst (dispatch sample_json (login sample_json ''alice'' ''pw1'' False ''zz81'') alice_registered)
     = Inr Success
   \<and> users (snd (dispatch sample_json (login sample_json ''alice'' ''pw1'' False ''zz81'')
        alice_registered)) = users alice_registered
   \<and> holds (localStorage (snd (dispatch sample_json (login sample_json ''alice'' ''pw1'' False ''zz81'')
        alice_registered))) LOCAL_USERS_KEY = holds (localStorage alice_registered) LOCAL_USERS_KEY"
  using login_leaves_registry[OF alice_logs_in] alice_logs_in by simp

section \<open>The session pair along a run\<close>

lemma session_struct_cong:
  assumes "token s' = token s"
    and "\<And>b. holds (storage_of b s') AUTH_USER_KEY = holds (storage_of b s) AUTH_USER_KEY"
    and "\<And>b. holds (storage_of b s') AUTH_TOKEN_KEY = holds (storage_of b s) AUTH_TOKEN_KEY"
  shows "session_struct s' = session_struct s"
  using assms(1) assms(2)[of Local] assms(2)[of Session] assms(3)[of Local] assms(3)[of Session]
  by (simp add: session_struct_def pair_present_def pair_absent_def split: option.splits)

lemma users_effect_run_inv:
  assumes "run_inv s"
  shows "run_inv (snd (users_effect J s))"
proof -
  let ?s' = "snd (users_effect J s)"
  note t = users_effect_touches[of s J]
  have flags: "\<And>b. disabled (storage_of b ?s') = disabled (storage_of b s)"
    using touches_logging_storage(1)[OF t] .
  have st: "session_struct ?s' = session_struct s"
    by (rule session_struct_cong)
       (simp_all add: touches_logging_memory[OF t] touches_logging_storage(3)[OF t])
  have cl: "persisted_cleanly ?s' = persisted_cleanly s"
    using touches_logging_console[OF t] by (auto simp add: persisted_cleanly_def)
  show ?thesis
    using assms flags[of Local] flags[of Session] st cl by (simp add: run_inv_def)
qed

lemma activated_run_inv:
  assumes "\<not> disabled (localStorage s)" and "\<not> disabled (sessionStorage s)"
  shows "run_inv (activated J pu rnd r s)"
proof -
  let ?s2 = "s\<lparr>user := Some pu, token := Some (''t_'' @ rnd)\<rparr>"
  let ?s' = "activated J pu rnd r s"
  note t = activated_touches[where s = s and pu = pu and rnd = rnd and J = J and r = r]
  have flags: "\<And>b. disabled (storage_of b ?s') = disabled (storage_of b s)"
    using touches_logging_storage(1)[OF t] by simp
  have en: "\<not> disabled (localStorage ?s') \<and> \<not> disabled (sessionStorage ?s')"
    using assms flags[of Local] flags[of Session] by simp
  have "session_struct ?s'" if cl: "persisted_cleanly ?s'"
  proof -
    obtain x s1 where b: "persistAuth_body J pu (''t_'' @ rnd) r ?s2 = (x, s1)"
      by (cases "persistAuth_body J pu (''t_'' @ rnd) r ?s2")
    have "\<exists>u. x = Inr u \<and> ?s' = s1"
    proof (cases x)
      case (Inl e)
      then have "?s' = s1\<lparr>console := console s1 @ [(''persistAuth error'', e)]\<rparr>"
        unfolding activated_def persistAuth_unfold b by simp
      with cl show ?thesis by (simp add: persisted_cleanly_def)
    next
      case (Inr u)
      then show ?thesis unfolding activated_def persistAuth_unfold b by simp
    qed
    then obtain u where ok: "persistAuth_body J pu (''t_'' @ rnd) r ?s2 = (Inr u, ?s')"
      using b by auto
    have tk: "token ?s' = Some (''t_'' @ rnd)" by (simp add: activated_memory)
    show ?thesis
    proof (cases r)
      case True
      with ok persistAuth_body_True[of J pu "''t_'' @ rnd" ?s2 u ?s'] tk
      show ?thesis by (simp add: session_struct_def pair_present_def pair_absent_def)
    next
      case False
      with ok persistAuth_body_False[of J pu "''t_'' @ rnd" ?s2 u ?s'] tk
      show ?thesis by (simp add: session_struct_def pair_present_def pair_absent_def)
    qed
  qed
  with en show ?thesis by (simp add: run_inv_def)
qed

lemma call_removeItem_enabled:
  assumes "\<not> disabled (storage_of b s)"
  shows "\<exists>s'. call_removeItem b k s = (Inr (), s')"
  using assms by (simp add: call_removeItem_def Let_def removeItem_def)

lemma logout_enabled:
  assumes "\<not> disabled (localStorage s)" and "\<not> disabled (sessionStorage s)"
  shows "fst (logout s) = Inr ()"
    and "pair_absent (localStorage (snd (logout s)))"
    and "pair_absent (sessionStorage (snd (logout s)))"
proof -
  let ?s0 = "s\<lparr>user := None, token := None\<rparr>"
  have e0: "\<not> disabled (storage_of Session ?s0)" using assms by simp
  obtain s1 where 1: "call_removeItem Session AUTH_USER_KEY ?s0 = (Inr (), s1)"
    using call_removeItem_enabled[OF e0] by blast
  have f1: "\<And>b. disabled (storage_of b s1) = disabled (storage_of b ?s0)"
    using touches_removeItem[of AUTH_USER_KEY "{AUTH_USER_KEY}" ?s0 Session] 1
    by (simp add: touches_def)
  have e1: "\<not> disabled (storage_of Session s1)" using f1[of Session] assms by simp
  obtain s2 where 2: "call_removeItem Session AUTH_TOKEN_KEY s1 = (Inr (), s2)"
    using call_removeItem_enabled[OF e1] by blast
  have f2: "\<And>b. disabled (storage_of b s2) = disabled (storage_of b s1)"
    using touches_removeItem[of AUTH_TOKEN_KEY "{AUTH_TOKEN_KEY}" s1 Session] 2
    by (simp add: touches_def)
  have e2: "\<not> disabled (storage_of Local s2)" using f2[of Local] f1[of Local] assms by simp
  obtain s3 where 3: "call_removeItem Local AUTH_USER_KEY s2 = (Inr (), s3)"
    using call_removeItem_enabled[OF e2] by blast
  have f3: "\<And>b. disabled (storage_of b s3) = disabled (storage_of b s2)"
    using touches_removeItem[of AUTH_USER_KEY "{AUTH_USER_KEY}" s2 Local] 3
    by (simp add: touches_def)
  have e3: "\<not> disabled (storage_of Local s3)" using f3[of Local] e2 by simp
  obtain s4 where 4: "call_removeItem Local AUTH_TOKEN_KEY s3 = (Inr (), s4)"
    using call_removeItem_enabled[OF e3] by blast
  have r: "logout s = (Inr (), s4)"
    by (simp add: logout_def Let_def 1 2 3 4)
  have su: "holds (storage_of Session s1) AUTH_USER_KEY = None"
    using call_removeItem_Inr(1)[OF 1] .
  have su2: "holds (storage_of Session s2) AUTH_USER_KEY = None"
    using call_removeItem_Inr(2)[OF 2, of Session AUTH_USER_KEY] su by simp
  have st2: "holds (storage_of Session s2) AUTH_TOKEN_KEY = None"
    using call_removeItem_Inr(1)[OF 2] .
  have su4: "holds (storage_of Session s4) AUTH_USER_KEY = None"
    using call_removeItem_Inr(2)[OF 4, of Session AUTH_USER_KEY]
      call_removeItem_Inr(2)[OF 3, of Session AUTH_USER_KEY] su2 by simp
  have st4: "holds (storage_of Session s4) AUTH_TOKEN_KEY = None"
    using call_removeItem_Inr(2)[OF 4, of Session AUTH_TOKEN_KEY]
      call_removeItem_Inr(2)[OF 3, of Session AUTH_TOKEN_KEY] st2 by simp
  have lu3: "holds (storage_of Local s3) AUTH_USER_KEY = None"
    using call_removeItem_Inr(1)[OF 3] .
  have lu4: "holds (storage_of Local s4) AUTH_USER_KEY = None"
    using call_removeItem_Inr(2)[OF 4, of Local AUTH_USER_KEY] lu3 by simp
  have lt4: "holds (storage_of Local s4) AUTH_TOKEN_KEY = None"
    using call_removeItem_Inr(1)[OF 4] .
  show "fst (logout s) = Inr ()" by (simp add: r)
  show "pair_absent (localStorage (snd (logout s)))"
    using lu4 lt4 by (simp add: r pair_absent_def)
  show "pair_absent (sessionStorage (snd (logout s)))"
    using su4 st4 by (simp add: r pair_absent_def)
qed

lemma logout_run_inv:
  assumes "run_inv s"
  shows "run_inv (snd (logout s))"
proof -
  have en: "\<not> disabled (localStorage s)" "\<not> disabled (sessionStorage s)"
    using assms by (simp_all add: run_inv_def)
  note t = logout_touches[of s]
  have flags: "\<And>b. disabled (storage_of b (snd (logout s))) = disabled (storage_of b s)"
    using t by (simp add: touches_def)
  have "session_struct (snd (logout s))"
    using logout_enabled(2,3)[OF en] by (simp add: session_struct_def logout_memory)
  then show ?thesis
    using en flags[of Local] flags[of Session] by (simp add: run_inv_def)
qed


section \<open>Mounting\<close>

lemma catch_return_Inr: "catch_return body d = Inr (case body of Inl e \<Rightarrow> d | Inr v \<Rightarrow> v)"
  by (simp add: catch_return_def split: sum.splits)

lemma getItem_holds: "getItem st k = (if disabled st then Inl SecurityError else Inr (holds st k))"
  by (simp add: getItem_def holds_def)

lemma or_else_getItem:
  "or_else (getItem st k) b =
     (if disabled st then Inl SecurityError
      else case stored st k of Some v \<Rightarrow> Inr (Some v) | None \<Rightarrow> b)"
  by (cases "holds st k") (simp_all add: or_else_def getItem_holds stored_def)

lemma or_else_simps:
  "or_else (Inl e) b = Inl e"
  "or_else (Inr x) b = (if truthy x then Inr x else b)"
  by (simp_all add: or_else_def)

lemma stored_Some: "stored st k = Some v \<Longrightarrow> v \<noteq> []"
  by (cases "holds st k") (simp_all add: stored_def split: if_splits)

lemma init_token_eq:
  "init_token l ss =
     Inr (if disabled l then None
          else case stored l AUTH_TOKEN_KEY of
                 Some v \<Rightarrow> Some v
               | None \<Rightarrow> if disabled ss then None else stored ss AUTH_TOKEN_KEY)"
proof (cases "disabled l")
  case True
  then show ?thesis
    by (simp add: init_token_def catch_return_Inr or_else_getItem or_else_simps)
next
  case l: False
  show ?thesis
  proof (cases "stored l AUTH_TOKEN_KEY")
    case (Some v)
    with l stored_Some[OF Some] show ?thesis
      by (simp add: init_token_def catch_return_Inr or_else_getItem or_else_simps)
  next
    case None
    with l show ?thesis
      by (simp add: init_token_def catch_return_Inr or_else_getItem split: option.splits)
  qed
qed

lemma getItem_raw:
  "(case getItem st k of
      Inl e \<Rightarrow> Inl e
    | Inr raw \<Rightarrow> if truthy raw then parse_user J (the raw) else Inr None) =
   (if disabled st then Inl SecurityError
    else case stored st k of Some v \<Rightarrow> parse_user J v | None \<Rightarrow> Inr None)"
  by (cases "holds st k") (simp_all add: getItem_holds stored_def)

lemma init_user_eq:
  "init_user J l ss =
     Inr (if disabled l then None
          else case stored l AUTH_USER_KEY of
                 Some v \<Rightarrow> parsed_user J v
               | None \<Rightarrow>
                   if disabled ss then None
                   else (case stored ss AUTH_USER_KEY of
                           Some v \<Rightarrow> parsed_user J v
                         | None \<Rightarrow> None))"
proof (cases "disabled l")
  case True
  then show ?thesis
    by (simp add: init_user_def catch_return_Inr or_else_getItem)
next
  case l: False
  show ?thesis
  proof (cases "stored l AUTH_USER_KEY")
    case (Some v)
    with l stored_Some[OF Some] show ?thesis
      by (simp add: init_user_def catch_return_Inr or_else_getItem parsed_user_def)
  next
    case None
    with l show ?thesis
      by (simp add: init_user_def catch_return_Inr or_else_getItem getItem_raw parsed_user_def
            split: option.splits sum.splits)
  qed
qed

lemma init_users_Inr: "\<exists>us. init_users J l = Inr us"
  by (simp add: init_users_def catch_return_Inr)

lemma init_users_denied: "disabled l \<Longrightarrow> init_users J l = Inr []"
  by (simp add: init_users_def catch_return_Inr getItem_holds)

lemma AuthProvider_init_Inr:
  "\<exists>us. AuthProvider_init J s =
     Inr (s\<lparr>users := us,
           user := (if disabled (localStorage s) then None
                    else case stored (localStorage s) AUTH_USER_KEY of
                           Some v \<Rightarrow> parsed_user J v
                         | None \<Rightarrow>
                             if disabled (sessionStorage s) then None
                             else (case stored (sessionStorage s) AUTH_USER_KEY of
                                     Some v \<Rightarrow> parsed_user J v
                                   | None \<Rightarrow> None)),
           token := (if disabled (localStorage s) then None
                     else case stored (localStorage s) AUTH_TOKEN_KEY of
                            Some v \<Rightarrow> Some v
                          | None \<Rightarrow>
                              if disabled (sessionStorage s) then None
                              else stored (sessionStorage s) AUTH_TOKEN_KEY)\<rparr>)"
  using init_users_Inr[of J "localStorage s"]
  by (auto simp add: AuthProvider_init_def init_user_eq init_token_eq)

lemma AuthProvider_mount_returns: "fst (AuthProvider_mount J s) = Inr ()"
  using AuthProvider_init_Inr[of J s]
  by (auto simp add: AuthProvider_mount_def users_effect_returns)

lemma init_run_inv:
  assumes "run_inv s" and "AuthProvider_init J s = Inr s'"
  shows "run_inv s'"
proof -
  have en: "\<not> disabled (localStorage s)" "\<not> disabled (sessionStorage s)"
    using assms(1) by (simp_all add: run_inv_def)
  obtain us u where s': "s' = s\<lparr>users := us, user := u,
      token := (case stored (localStorage s) AUTH_TOKEN_KEY of
                  Some v \<Rightarrow> Some v | None \<Rightarrow> stored (sessionStorage s) AUTH_TOKEN_KEY)\<rparr>"
    using AuthProvider_init_Inr[of J s] assms(2) en by auto
  have "session_struct s'" if "persisted_cleanly s'"
  proof -
    from that have "persisted_cleanly s" by (simp add: s' persisted_cleanly_def)
    with assms(1) have st: "session_struct s" by (simp add: run_inv_def)
    have "token s' = token s"
      using st
      by (auto simp add: s' session_struct_def pair_absent_def pair_present_def stored_def
            split: option.splits)
    with st show ?thesis
      by (simp add: s' session_struct_def split: option.splits)
  qed
  with en show ?thesis by (simp add: run_inv_def s')
qed

lemma mount_run_inv:
  assumes "run_inv s"
  shows "run_inv (snd (AuthProvider_mount J s))"
proof -
  obtain s' where i: "AuthProvider_init J s = Inr s'"
    using AuthProvider_init_Inr[of J s] by blast
  have "run_inv s'" using init_run_inv[OF assms i] .
  then show ?thesis
    by (simp add: AuthProvider_mount_def i users_effect_run_inv)
qed

lemma step_run_inv:
  assumes "run_inv s"
  shows "run_inv (step J e s)"
proof (cases e)
  case (Register uname pw nm remember rnd)
  have en: "\<not> disabled (localStorage s)" "\<not> disabled (sessionStorage s)"
    using assms by (simp_all add: run_inv_def)
  show ?thesis
    using assms en
    by (simp add: Register register_outcome users_effect_run_inv activated_run_inv)
next
  case (Login uname pw remember rnd)
  have en: "\<not> disabled (localStorage s)" "\<not> disabled (sessionStorage s)"
    using assms by (simp_all add: run_inv_def)
  show ?thesis
    using assms en
    by (simp add: Login login_outcome activated_run_inv split: option.splits)
next
  case Logout
  then show ?thesis using assms by (simp add: dispatch_logout logout_run_inv)
next
  case Reload
  then show ?thesis using assms by (simp add: mount_run_inv)
qed

lemma run_run_inv: "run_inv s \<Longrightarrow> run_inv (run J es s)"
  by (induction es arbitrary: s) (simp_all add: step_run_inv)

lemma fresh_run_inv: "run_inv (fresh ql qs)"
  by (simp add: run_inv_def fresh_def session_struct_def pair_absent_def holds_def)

lemma start_run_inv: "run_inv (start J ql qs)"
  unfolding start_def by (rule mount_run_inv) (rule fresh_run_inv)

lemma session_struct_placement:
  assumes "session_struct s"
  shows "(isAuthenticated s \<longrightarrow> in_exactly_one s)
       \<and> (\<not> isAuthenticated s \<longrightarrow> pair_absent (localStorage s) \<and> pair_absent (sessionStorage s))"
  using assms
  by (auto simp add: session_struct_def isAuthenticated_def in_exactly_one_def split: option.splits)


section \<open>The session pair lives in one storage object\<close>

text \<open>
  C1 (as amended). For every call of \<^verbatim>\<open>persistAuth\<close> in which no storage call throws: with
  \<^verbatim>\<open>remember = true\<close> the durable storage afterwards holds the serialised user and the
  token under the two session keys and the session-scoped storage holds neither key; with
  \<^verbatim>\<open>remember = false\<close> it is the other way round. And from a profile with empty, accessible
  storage, in every state reached by registering, logging in, logging out and reloading in
  which no \<^verbatim>\<open>persistAuth\<close> failure has been logged: while \<^verbatim>\<open>isAuthenticated\<close> holds, the
  session pair is in exactly one storage object (both keys there, neither key in the other),
  and while it does not hold, the pair is in neither.
\<close>

theorem session_pair_in_one_backend:
  "(fst (persistAuth_body J u t True s) = Inr () \<longrightarrow>
      holds (localStorage (snd (persistAuth J u t True s))) AUTH_USER_KEY = Some (stringify_user J u)
      \<and> holds (localStorage (snd (persistAuth J u t True s))) AUTH_TOKEN_KEY = Some t
      \<and> pair_absent (sessionStorage (snd (persistAuth J u t True s))))
   \<and> (fst (persistAuth_body J u t False s) = Inr () \<longrightarrow>
      holds (sessionStorage (snd (persistAuth J u t False s))) AUTH_USER_KEY = Some (stringify_user J u)
      \<and> holds (sessionStorage (snd (persistAuth J u t False s))) AUTH_TOKEN_KEY = Some t
      \<and> pair_absent (localStorage (snd (persistAuth J u t False s))))
   \<and> (persisted_cleanly (run J es (start J ql qs)) \<longrightarrow>
      (isAuthenticated (run J es (start J ql qs)) \<longrightarrow> in_exactly_one (run J es (start J ql qs)))
      \<and> (\<not> isAuthenticated (run J es (start J ql qs)) \<longrightarrow>
           pair_absent (localStorage (run J es (start J ql qs)))
           \<and> pair_absent (sessionStorage (run J es (start J ql qs)))))"
proof (intro conjI impI)
  assume ok: "fst (persistAuth_body J u t True s) = Inr ()"
  then have b: "persistAuth_body J u t True s = (Inr (), snd (persistAuth J u t True s))"
    by (cases "persistAuth_body J u t True s") (simp add: persistAuth_unfold)
  note p = persistAuth_body_True[OF b]
  show "holds (localStorage (snd (persistAuth J u t True s))) AUTH_USER_KEY = Some (stringify_user J u)"
    and "holds (localStorage (snd (persistAuth J u t True s))) AUTH_TOKEN_KEY = Some t"
    and "pair_absent (sessionStorage (snd (persistAuth J u t True s)))"
    using p by (simp_all add: pair_absent_def)
next
  assume ok: "fst (persistAuth_body J u t False s) = Inr ()"
  then have b: "persistAuth_body J u t False s = (Inr (), snd (persistAuth J u t False s))"
    by (cases "persistAuth_body J u t False s") (simp add: persistAuth_unfold)
  note p = persistAuth_body_False[OF b]
  show "holds (sessionStorage (snd (persistAuth J u t False s))) AUTH_USER_KEY = Some (stringify_user J u)"
    and "holds (sessionStorage (snd (persistAuth J u t False s))) AUTH_TOKEN_KEY = Some t"
    and "pair_absent (localStorage (snd (persistAuth J u t False s)))"
    using p by (simp_all add: pair_absent_def)
next
  let ?s = "run J es (start J ql qs)"
  assume cl: "persisted_cleanly ?s"
  have "run_inv ?s" by (rule run_run_inv) (rule start_run_inv)
  with cl have st: "session_struct ?s" by (simp add: run_inv_def)
  note pl = session_struct_placement[OF st]
  { assume "isAuthenticated ?s" with pl show "in_exactly_one ?s" by simp }
  { assume "\<not> isAuthenticated ?s"
    with pl show "pair_absent (localStorage ?s)" and "pair_absent (sessionStorage ?s)" by simp_all }
qed

theorem session_pair_in_one_backend_witness:
  "fst (persistAuth_body sample_json \<lparr>username = ''alice'', name = Some ''Alice''\<rparr> ''t_k3j2'' True
          sample_start) = Inr ()
   \<and> holds (localStorage (snd (persistAuth sample_json \<lparr>username = ''alice'', name = Some ''Alice''\<rparr>
          ''t_k3j2'' True sample_start))) AUTH_TOKEN_KEY = Some ''t_k3j2''
   \<and> pair_absent (sessionStorage (snd (persistAuth sample_json
          \<lparr>username = ''alice'', name = Some ''Alice''\<rparr> ''t_k3j2'' True sample_start)))
   \<and> fst (persistAuth_body sample_json \<lparr>username = ''alice'', name = Some ''Alice''\<rparr> ''t_k3j2'' False
          sample_start) = Inr ()
   \<and> holds (sessionStorage (snd (persistAuth sample_json \<lparr>username = ''alice'', name = Some ''Alice''\<rparr>
          ''t_k3j2'' False sample_start))) AUTH_TOKEN_KEY = Some ''t_k3j2''
   \<and> pair_absent (localStorage (snd (persistAuth sample_json
          \<lparr>username = ''alice'', name = Some ''Alice''\<rparr> ''t_k3j2'' False sample_start)))
   \<and> persisted_cleanly (run sample_json sample_events (start sample_json 1000 1000))
   \<and> isAuthenticated (run sample_json sample_events (start sample_json 1000 1000))
   \<and> in_exactly_one (run sample_json sample_events (start sample_json 1000 1000))"
proof -
  have 1: "fst (persistAuth_body sample_json \<lparr>username = ''alice'', name = Some ''Alice''\<rparr> ''t_k3j2'' True
          sample_start) = Inr ()"
    by code_simp
  have 2: "fst (persistAuth_body sample_json \<lparr>username = ''alice'', name = Some ''Alice''\<rparr> ''t_k3j2'' False
          sample_start) = Inr ()"
    by code_simp
  have 3: "persisted_cleanly (run sample_json sample_events (start sample_json 1000 1000))"
    by code_simp
  have 4: "isAuthenticated (run sample_json sample_events (start sample_json 1000 1000))"
    by code_simp
  show ?thesis
    using 1 2 3 4
      session_pair_in_one_backend[of sample_json "\<lparr>username = ''alice'', name = Some ''Alice''\<rparr>"
        "''t_k3j2''" sample_start sample_events 1000 1000]
    by simp
qed

text \<open>
  C1 as stated fails when a storage call throws, since \<^verbatim>\<open>persistAuth\<close> catches the error and
  goes on: with the durable storage full, a successful login with "remember me" leaves no
  pair in the durable storage and leaves the pair of the earlier session in the
  session-scoped one.
\<close>

theorem remembered_login_not_in_durable:
  "fst (dispatch sample_json (login sample_json ''alice'' ''pw1'' True ''zz81'') durable_full_registered)
     = Inr Success
   \<and> token (snd (dispatch sample_json (login sample_json ''alice'' ''pw1'' True ''zz81'')
        durable_full_registered)) = Some ''t_zz81''
   \<and> pair_absent (localStorage (snd (dispatch sample_json (login sample_json ''alice'' ''pw1'' True ''zz81'')
        durable_full_registered)))
   \<and> holds (sessionStorage (snd (dispatch sample_json (login sample_json ''alice'' ''pw1'' True ''zz81'')
        durable_full_registered))) AUTH_TOKEN_KEY = Some ''t_k3j2''"
  by code_simp

section \<open>Restoring the session at startup\<close>

lemma mount_memory:
  "\<exists>us. users (snd (AuthProvider_mount J s)) = us
     \<and> user (snd (AuthProvider_mount J s)) =
          (if disabled (localStorage s) then None
           else case stored (localStorage s) AUTH_USER_KEY of
                  Some v \<Rightarrow> parsed_user J v
                | None \<Rightarrow>
                    if disabled (sessionStorage s) then None
                    else (case stored (sessionStorage s) AUTH_USER_KEY of
                            Some v \<Rightarrow> parsed_user J v
                          | None \<Rightarrow> None))
     \<and> token (snd (AuthProvider_mount J s)) =
          (if disabled (localStorage s) then None
           else case stored (localStorage s) AUTH_TOKEN_KEY of
                  Some v \<Rightarrow> Some v
                | None \<Rightarrow>
                    if disabled (sessionStorage s) then None
                    else stored (sessionStorage s) AUTH_TOKEN_KEY)"
proof -
  obtain us where i: "AuthProvider_init J s =
     Inr (s\<lparr>users := us,
           user := (if disabled (localStorage s) then None
                    else case stored (localStorage s) AUTH_USER_KEY of
                           Some v \<Rightarrow> parsed_user J v
                         | None \<Rightarrow>
                             if disabled (sessionStorage s) then None
                             else (case stored (sessionStorage s) AUTH_USER_KEY of
                                     Some v \<Rightarrow> parsed_user J v
                                   | None \<Rightarrow> None)),
           token := (if disabled (localStorage s) then None
                     else case stored (localStorage s) AUTH_TOKEN_KEY of
                            Some v \<Rightarrow> Some v
                          | None \<Rightarrow>
                              if disabled (sessionStorage s) then None
                              else stored (sessionStorage s) AUTH_TOKEN_KEY)\<rparr>)"
    using AuthProvider_init_Inr[of J s] by blast
  show ?thesis
    by (simp add: AuthProvider_mount_def i users_effect_memory)
qed

text \<open>
  C8. Mounting the provider never throws, whatever the two storage objects hold and whether
  or not they can be read: not when both hold a session pair, not on text that does not
  parse, not when access is denied. When both can be read, the restored token is the one the
  durable storage has, and the one of the session-scoped storage only if the durable storage
  has none; the restored user is read from the text chosen in the same way. When the durable
  storage has a token or a user, that one is restored whatever the session-scoped storage
  holds or does. When a storage object that has to be read cannot be, the error is caught and
  nothing is restored for that key. (A storage object has a text under a key when it holds
  a non-empty one.)
\<close>

theorem restore_prefers_durable:
  "(\<exists>s'. AuthProvider_init J s = Inr s')
   \<and> fst (AuthProvider_mount J s) = Inr ()
   \<and> (\<not> disabled (localStorage s) \<longrightarrow> \<not> disabled (sessionStorage s) \<longrightarrow>
        token (snd (AuthProvider_mount J s))
          = preferring_durable (localStorage s) (sessionStorage s) AUTH_TOKEN_KEY
        \<and> user (snd (AuthProvider_mount J s))
          = (case preferring_durable (localStorage s) (sessionStorage s) AUTH_USER_KEY of
               None \<Rightarrow> None
             | Some raw \<Rightarrow> parsed_user J raw))
   \<and> (\<not> disabled (localStorage s) \<longrightarrow>
        (\<forall>v. stored (localStorage s) AUTH_TOKEN_KEY = Some v \<longrightarrow>
               token (snd (AuthProvider_mount J s)) = Some v)
        \<and> (\<forall>raw. stored (localStorage s) AUTH_USER_KEY = Some raw \<longrightarrow>
               user (snd (AuthProvider_mount J s)) = parsed_user J raw))
   \<and> (disabled (localStorage s)
        \<or> disabled (sessionStorage s) \<and> stored (localStorage s) AUTH_TOKEN_KEY = None \<longrightarrow>
        token (snd (AuthProvider_mount J s)) = None)
   \<and> (disabled (localStorage s)
        \<or> disabled (sessionStorage s) \<and> stored (localStorage s) AUTH_USER_KEY = None \<longrightarrow>
        user (snd (AuthProvider_mount J s)) = None)"
proof (intro conjI)
  show "\<exists>s'. AuthProvider_init J s = Inr s'"
    using AuthProvider_init_Inr[of J s] by blast
  show "fst (AuthProvider_mount J s) = Inr ()"
    by (rule AuthProvider_mount_returns)
  show "\<not> disabled (localStorage s) \<longrightarrow> \<not> disabled (sessionStorage s) \<longrightarrow>
        token (snd (AuthProvider_mount J s))
          = preferring_durable (localStorage s) (sessionStorage s) AUTH_TOKEN_KEY
        \<and> user (snd (AuthProvider_mount J s))
          = (case preferring_durable (localStorage s) (sessionStorage s) AUTH_USER_KEY of
               None \<Rightarrow> None
             | Some raw \<Rightarrow> parsed_user J raw)"
    using mount_memory[of J s]
    by (auto simp add: preferring_durable_def split: option.splits)
  show "\<not> disabled (localStorage s) \<longrightarrow>
        (\<forall>v. stored (localStorage s) AUTH_TOKEN_KEY = Some v \<longrightarrow>
               token (snd (AuthProvider_mount J s)) = Some v)
        \<and> (\<forall>raw. stored (localStorage s) AUTH_USER_KEY = Some raw \<longrightarrow>
               user (snd (AuthProvider_mount J s)) = parsed_user J raw)"
    using mount_memory[of J s] by auto
  show "disabled (localStorage s)
        \<or> disabled (sessionStorage s) \<and> stored (localStorage s) AUTH_TOKEN_KEY = None \<longrightarrow>
        token (snd (AuthProvider_mount J s)) = None"
    using mount_memory[of J s] by auto
  show "disabled (localStorage s)
        \<or> disabled (sessionStorage s) \<and> stored (localStorage s) AUTH_USER_KEY = None \<longrightarrow>
        user (snd (AuthProvider_mount J s)) = None"
    using mount_memory[of J s] by auto
qed

theorem restore_prefers_durable_witness:
  "\<not> disabled (localStorage both_hold_pair) \<and> \<not> disabled (sessionStorage both_hold_pair)
   \<and> stored (localStorage both_hold_pair) AUTH_TOKEN_KEY = Some ''t_k3j2''
   \<and> stored (sessionStorage both_hold_pair) AUTH_TOKEN_KEY = Some ''t_zz81''
   \<and> fst (AuthProvider_mount sample_json both_hold_pair) = Inr ()
   \<and> token (snd (AuthProvider_mount sample_json both_hold_pair)) = Some ''t_k3j2''
   \<and> user (snd (AuthProvider_mount sample_json both_hold_pair))
        = Some \<lparr>username = ''alice'', name = Some ''Alice''\<rparr>"
proof -
  have 1: "\<not> disabled (localStorage both_hold_pair)" "\<not> disabled (sessionStorage both_hold_pair)"
    by code_simp+
  have 2: "stored (localStorage both_hold_pair) AUTH_TOKEN_KEY = Some ''t_k3j2''"
    by code_simp
  have 3: "stored (sessionStorage both_hold_pair) AUTH_TOKEN_KEY = Some ''t_zz81''"
    by code_simp
  have 4: "stored (localStorage both_hold_pair) AUTH_USER_KEY
             = Some (print_user \<lparr>username = ''alice'', name = Some ''Alice''\<rparr>)"
    by code_simp
  have 5: "parsed_user sample_json (print_user \<lparr>username = ''alice'', name = Some ''Alice''\<rparr>)
             = Some \<lparr>username = ''alice'', name = Some ''Alice''\<rparr>"
    by code_simp
  show ?thesis
    using 1 2 3 4 5 restore_prefers_durable[of sample_json both_hold_pair]
    by (simp add: preferring_durable_def)
qed

section \<open>Storage failures\<close>

lemma persistAuth_logs:
  assumes "fst (persistAuth_body J u t r s) = Inl e"
  shows "console (snd (persistAuth J u t r s)) = console s @ [(''persistAuth error'', e)]"
proof -
  obtain s1 where b: "persistAuth_body J u t r s = (Inl e, s1)"
    using assms by (cases "persistAuth_body J u t r s") simp
  have "console s1 = console s"
    using touches_persistAuth_body[of s J u t r] by (simp add: b touches_def)
  then show ?thesis by (simp add: persistAuth_unfold b)
qed

lemma users_effect_logs:
  assumes "fst (call_setItem Local LOCAL_USERS_KEY (stringify_users J (users s)) s) = Inl e"
  shows "console (snd (users_effect J s)) = console s @ [(''Could not save users'', e)]"
proof -
  obtain s1 where b: "call_setItem Local LOCAL_USERS_KEY (stringify_users J (users s)) s = (Inl e, s1)"
    using assms by (cases "call_setItem Local LOCAL_USERS_KEY (stringify_users J (users s)) s") simp
  have "console s1 = console s"
    using touches_setItem[of LOCAL_USERS_KEY "{LOCAL_USERS_KEY}" s Local "stringify_users J (users s)"]
    by (simp add: b touches_def)
  then show ?thesis by (simp add: users_effect_unfold b)
qed

lemma init_silent:
  "\<exists>s'. AuthProvider_init J s = Inr s' \<and> console s' = console s \<and> journal s' = journal s
        \<and> localStorage s' = localStorage s \<and> sessionStorage s' = sessionStorage s
        \<and> (disabled (localStorage s) \<longrightarrow> users s' = [] \<and> user s' = None \<and> token s' = None)"
proof (cases "disabled (localStorage s)")
  case True
  then show ?thesis
    by (simp add: AuthProvider_init_def init_users_denied init_user_eq init_token_eq)
next
  case False
  then show ?thesis
    using AuthProvider_init_Inr[of J s] by auto
qed

text \<open>
  C7 (as amended). In the users effect, in \<^verbatim>\<open>persistAuth\<close> and in the initializers, a
  storage call that throws is caught where it is made and never leaves the operation: each
  of them returns normally from every state. The users effect and \<^verbatim>\<open>persistAuth\<close> log the
  error with \<^verbatim>\<open>console.error\<close>; the initializers log nothing and fall back to the empty
  registry, no user and no token.
\<close>

theorem storage_failures_caught:
  "fst (users_effect J s) = Inr ()
   \<and> (\<forall>e. fst (call_setItem Local LOCAL_USERS_KEY (stringify_users J (users s)) s) = Inl e \<longrightarrow>
          console (snd (users_effect J s)) = console s @ [(''Could not save users'', e)])
   \<and> fst (persistAuth J u t r s) = Inr ()
   \<and> (\<forall>e. fst (persistAuth_body J u t r s) = Inl e \<longrightarrow>
          console (snd (persistAuth J u t r s)) = console s @ [(''persistAuth error'', e)])
   \<and> (\<exists>s'. AuthProvider_init J s = Inr s' \<and> console s' = console s
          \<and> (disabled (localStorage s) \<longrightarrow> users s' = [] \<and> user s' = None \<and> token s' = None))
   \<and> fst (AuthProvider_mount J s) = Inr ()"
  using init_silent[of J s]
  by (auto simp add: users_effect_returns persistAuth_returns AuthProvider_mount_returns
        users_effect_logs persistAuth_logs)

theorem storage_failures_caught_witness:
  "fst (call_setItem Local LOCAL_USERS_KEY (stringify_users sample_json (users denied_profile))
          denied_profile) = Inl SecurityError
   \<and> users_effect sample_json denied_profile
        = (Inr (), denied_profile
             \<lparr>console := [(''Could not save users'', SecurityError)],
              journal := [SetItem Local LOCAL_USERS_KEY ''[]'']\<rparr>)
   \<and> fst (persistAuth_body sample_json \<lparr>username = ''alice'', name = Some ''Alice''\<rparr> ''t_k3j2'' True
          denied_profile) = Inl SecurityError
   \<and> fst (persistAuth sample_json \<lparr>username = ''alice'', name = Some ''Alice''\<rparr> ''t_k3j2'' True
          denied_profile) = Inr ()
   \<and> console (snd (persistAuth sample_json \<lparr>username = ''alice'', name = Some ''Alice''\<rparr> ''t_k3j2'' True
          denied_profile)) = [(''persistAuth error'', SecurityError)]
   \<and> disabled (localStorage denied_profile)
   \<and> AuthProvider_init sample_json denied_profile = Inr denied_profile"
proof -
  have 1: "fst (call_setItem Local LOCAL_USERS_KEY (stringify_users sample_json (users denied_profile))
          denied_profile) = Inl SecurityError"
    by code_simp
  have 2: "fst (persistAuth_body sample_json \<lparr>username = ''alice'', name = Some ''Alice''\<rparr> ''t_k3j2'' True
          denied_profile) = Inl SecurityError"
    by code_simp
  have 3: "disabled (localStorage denied_profile)" "console denied_profile = []"
    by code_simp+
  have 4: "users_effect sample_json denied_profile
        = (Inr (), denied_profile
             \<lparr>console := [(''Could not save users'', SecurityError)],
              journal := [SetItem Local LOCAL_USERS_KEY ''[]'']\<rparr>)"
    by code_simp
  have 5: "AuthProvider_init sample_json denied_profile = Inr denied_profile"
    by code_simp
  show ?thesis
    using 1 2 3 4 5
      storage_failures_caught[of sample_json denied_profile
        "\<lparr>username = ''alice'', name = Some ''Alice''\<rparr>" "''t_k3j2''" True]
    by simp
qed

text \<open>
  C7 as stated fails: with storage denied, the initializers catch the error of \<^verbatim>\<open>getItem\<close>
  without logging it, and \<^verbatim>\<open>logout\<close>, whose four \<^verbatim>\<open>removeItem\<close> calls are in no
  \<^verbatim>\<open>try\<close>, throws.
\<close>

theorem restore_silent_logout_throws:
  "getItem (localStorage denied_profile) LOCAL_USERS_KEY = Inl SecurityError
   \<and> console denied_profile = []
   \<and> AuthProvider_init sample_json denied_profile = Inr denied_profile
   \<and> fst (dispatch sample_json logout denied_profile) = Inl SecurityError"
  by code_simp

text \<open>
  With both storage objects accessible, \<^verbatim>\<open>logout\<close> does what is asked of it.
\<close>

lemma logout_clears_accessible_storage:
  assumes "\<not> disabled (localStorage s)" and "\<not> disabled (sessionStorage s)"
  shows "fst (dispatch J logout s) = Inr ()"
    and "pair_absent (localStorage (snd (dispatch J logout s)))"
    and "pair_absent (sessionStorage (snd (dispatch J logout s)))"
    and "user (snd (dispatch J logout s)) = None"
    and "token (snd (dispatch J logout s)) = None"
    and "\<not> isAuthenticated (snd (dispatch J logout s))"
  using logout_enabled[OF assms]
  by (simp_all add: dispatch_logout logout_memory isAuthenticated_def)

text \<open>
  C6, where the code departs from it. \<^verbatim>\<open>logout\<close> (lines 116-123) calls \<^verbatim>\<open>removeItem\<close>
  outside any \<^verbatim>\<open>try\<close>, unlike \<^verbatim>\<open>persistAuth\<close>. After alice has registered in a profile
  whose storage is denied, \<^verbatim>\<open>logout\<close> throws \<^verbatim>\<open>SecurityError\<close>. When only the
  session-scoped storage is denied, the first \<^verbatim>\<open>removeItem\<close> throws before the durable pair
  is removed: the pair is still in the durable storage after \<^verbatim>\<open>logout\<close>, and reloading
  the page restores the session.
\<close>

theorem logout_throws_when_storage_denied:
  "isAuthenticated denied_logged_in
   \<and> fst (dispatch sample_json logout denied_logged_in) = Inl SecurityError
   \<and> isAuthenticated session_denied_logged_in
   \<and> pair_present (localStorage session_denied_logged_in)
   \<and> fst (dispatch sample_json logout session_denied_logged_in) = Inl SecurityError
   \<and> pair_present (localStorage (snd (dispatch sample_json logout session_denied_logged_in)))
   \<and> isAuthenticated (step sample_json Reload
        (snd (dispatch sample_json logout session_denied_logged_in)))"
  by code_simp

section \<open>What a login does\<close>

lemma call_setItem_journal: "journal (snd (call_setItem b k v s)) = journal s @ [SetItem b k v]"
  by (simp add: call_setItem_def Let_def split: sum.splits)

lemma call_removeItem_journal: "journal (snd (call_removeItem b k s)) = journal s @ [RemoveItem b k]"
  by (simp add: call_removeItem_def Let_def split: sum.splits)

text \<open>
  A block whose statements each add one call to the journal adds the calls of the statements
  it ran: at least the first, and all of them when it ends normally.
\<close>

lemma block_journal:
  assumes "list_all2 (\<lambda>c k. \<forall>s. journal (snd (c s)) = journal s @ [k]) cs ks"
  shows "\<exists>n\<le>length ks. (cs \<noteq> [] \<longrightarrow> 0 < n)
           \<and> journal (snd (block cs s)) = journal s @ take n ks
           \<and> (\<forall>x. fst (block cs s) = Inr x \<longrightarrow> n = length ks)"
  using assms
proof (induction cs ks arbitrary: s rule: list_all2_induct)
  case Nil
  show ?case by simp
next
  case (Cons c cs k ks)
  have j: "journal (snd (c s)) = journal s @ [k]" using Cons.hyps(1) by simp
  obtain r s' where cs: "c s = (r, s')" by (cases "c s")
  show ?case
  proof (cases r)
    case (Inl e)
    have "journal (snd (block (c # cs) s)) = journal s @ take (Suc 0) (k # ks)"
      using j by (simp add: cs Inl)
    moreover have "\<forall>x. fst (block (c # cs) s) \<noteq> Inr x"
      by (simp add: cs Inl)
    ultimately show ?thesis
      by (intro exI[of _ "Suc 0"]) simp
  next
    case (Inr u)
    from Cons.IH[of s'] obtain n where n: "n \<le> length ks"
      "journal (snd (block cs s')) = journal s' @ take n ks"
      "\<forall>x. fst (block cs s') = Inr x \<longrightarrow> n = length ks"
      by blast
    have s': "journal s' = journal s @ [k]" using j by (simp add: cs)
    show ?thesis
      using n s' by (intro exI[of _ "Suc n"]) (simp add: cs Inr)
  qed
qed

lemma persistAuth_body_journal:
  "\<exists>n. 0 < n \<and> n \<le> 4
       \<and> journal (snd (persistAuth_body J u t r s)) = journal s @ take n (activation_calls J u t r)
       \<and> (fst (persistAuth_body J u t r s) = Inr () \<longrightarrow> n = 4)"
proof (cases r)
  case True
  have "list_all2 (\<lambda>c k. \<forall>s. journal (snd (c s)) = journal s @ [k])
          [call_setItem Local AUTH_USER_KEY (stringify_user J u),
           call_setItem Local AUTH_TOKEN_KEY t,
           call_removeItem Session AUTH_USER_KEY,
           call_removeItem Session AUTH_TOKEN_KEY]
          (activation_calls J u t True)"
    by (simp add: activation_calls_def call_setItem_journal call_removeItem_journal)
  from block_journal[OF this, of s] True show ?thesis
    by (auto simp add: persistAuth_body_def activation_calls_def)
next
  case False
  have "list_all2 (\<lambda>c k. \<forall>s. journal (snd (c s)) = journal s @ [k])
          [call_setItem Session AUTH_USER_KEY (stringify_user J u),
           call_setItem Session AUTH_TOKEN_KEY t,
           call_removeItem Local AUTH_USER_KEY,
           call_removeItem Local AUTH_TOKEN_KEY]
          (activation_calls J u t False)"
    by (simp add: activation_calls_def call_setItem_journal call_removeItem_journal)
  from block_journal[OF this, of s] False show ?thesis
    by (auto simp add: persistAuth_body_def activation_calls_def)
qed

lemma persistAuth_console:
  "(fst (persistAuth_body J u t r s) = Inr () \<and> persistAuth J u t r s = persistAuth_body J u t r s
      \<and> console (snd (persistAuth J u t r s)) = console s)
   \<or> (\<exists>e. fst (persistAuth_body J u t r s) = Inl e
         \<and> console (snd (persistAuth J u t r s)) = console s @ [(''persistAuth error'', e)])"
proof (cases "fst (persistAuth_body J u t r s)")
  case (Inl e)
  then show ?thesis using persistAuth_logs[of J u t r s e] by simp
next
  case (Inr x)
  have c: "console (snd (persistAuth_body J u t r s)) = console s"
    using touches_persistAuth_body[of s J u t r] by (simp add: touches_def)
  from Inr c show ?thesis
    by (cases "persistAuth_body J u t r s") (simp add: persistAuth_unfold)
qed

lemma persistAuth_journal:
  "journal (snd (persistAuth J u t r s)) = journal (snd (persistAuth_body J u t r s))"
  by (cases "persistAuth_body J u t r s") (simp add: persistAuth_unfold split: sum.splits)


lemma activated_effect:
  "(\<exists>n. 0 < n \<and> n \<le> 4
        \<and> journal (activated J pu rnd r s) = journal s @ take n (activation_calls J pu (''t_'' @ rnd) r))
   \<and> (console (activated J pu rnd r s) = console s \<longrightarrow>
        journal (activated J pu rnd r s) = journal s @ activation_calls J pu (''t_'' @ rnd) r
        \<and> holds (storage_of (if r then Local else Session) (activated J pu rnd r s)) AUTH_USER_KEY
             = Some (stringify_user J pu)
        \<and> holds (storage_of (if r then Local else Session) (activated J pu rnd r s)) AUTH_TOKEN_KEY
             = Some (''t_'' @ rnd)
        \<and> pair_absent (storage_of (if r then Session else Local) (activated J pu rnd r s)))
   \<and> (console (activated J pu rnd r s) \<noteq> console s \<longrightarrow>
        (\<exists>e. console (activated J pu rnd r s) = console s @ [(''persistAuth error'', e)]))"
proof -
  let ?tok = "''t_'' @ rnd"
  let ?s2 = "s\<lparr>user := Some pu, token := Some ?tok\<rparr>"
  let ?b = "persistAuth_body J pu ?tok r ?s2"
  let ?s' = "activated J pu rnd r s"
  have s': "?s' = snd (persistAuth J pu ?tok r ?s2)" by (simp add: activated_def)
  obtain n where n: "0 < n" "n \<le> 4"
    "journal (snd ?b) = journal ?s2 @ take n (activation_calls J pu ?tok r)"
    "fst ?b = Inr () \<longrightarrow> n = 4"
    using persistAuth_body_journal[of J pu ?tok r ?s2] by blast
  have j: "journal ?s' = journal s @ take n (activation_calls J pu ?tok r)"
    unfolding s' persistAuth_journal n(3) by simp
  have len: "length (activation_calls J pu ?tok r) = 4"
    by (simp add: activation_calls_def)
  note c = persistAuth_console[of J pu ?tok r ?s2]
  have 1: "\<exists>n. 0 < n \<and> n \<le> 4 \<and> journal ?s' = journal s @ take n (activation_calls J pu ?tok r)"
    using n(1,2) j by blast
  have 3: "console ?s' \<noteq> console s \<longrightarrow> (\<exists>e. console ?s' = console s @ [(''persistAuth error'', e)])"
    using c unfolding s' by auto
  have 2: "journal ?s' = journal s @ activation_calls J pu ?tok r
        \<and> holds (storage_of (if r then Local else Session) ?s') AUTH_USER_KEY = Some (stringify_user J pu)
        \<and> holds (storage_of (if r then Local else Session) ?s') AUTH_TOKEN_KEY = Some ?tok
        \<and> pair_absent (storage_of (if r then Session else Local) ?s')"
    if same: "console ?s' = console s"
  proof -
    from c same have ok: "fst ?b = Inr ()" and eq: "persistAuth J pu ?tok r ?s2 = ?b"
      unfolding s' by auto
    have b: "?b = (Inr (), ?s')"
      using ok eq unfolding s' by (cases ?b) simp
    have "n = 4" using n(4) ok by simp
    then have jj: "journal ?s' = journal s @ activation_calls J pu ?tok r"
      using j len by simp
    show ?thesis
    proof (cases r)
      case True
      with b have "persistAuth_body J pu ?tok True ?s2 = (Inr (), ?s')" by simp
      from persistAuth_body_True[OF this] jj True show ?thesis
        by (simp add: pair_absent_def)
    next
      case False
      with b have "persistAuth_body J pu ?tok False ?s2 = (Inr (), ?s')" by simp
      from persistAuth_body_False[OF this] jj False show ?thesis
        by (simp add: pair_absent_def)
    qed
  qed
  from 1 2 3 show ?thesis by blast
qed

text \<open>
  C4. For every state and every username and password, \<^verbatim>\<open>login\<close> returns
  \<^verbatim>\<open>{success: false, message: "Invalid credentials"}\<close> exactly when no account of the
  registry has that username and that password, both compared as strings; the state is then
  as before. When some account matches, \<^verbatim>\<open>login\<close> returns \<^verbatim>\<open>{success: true}\<close> and
  activates a session for a matching account: the current user is its public part, the
  current token is the fresh token, \<^verbatim>\<open>isAuthenticated\<close> holds, the registry is as before,
  and the state is the one \<^verbatim>\<open>persistAuth\<close> leaves for that user, that token and the given
  \<^verbatim>\<open>remember\<close>. The storage calls made are the calls of an activation for \<^verbatim>\<open>remember\<close>,
  in order, up to the first that throws. When nothing is logged all four were made and the
  storage object chosen by \<^verbatim>\<open>remember\<close> holds the serialised user and the token while the
  other one holds neither key; otherwise exactly one \<^verbatim>\<open>persistAuth\<close> error is logged.
\<close>

theorem login_invalid_iff_no_match:
  "(fst (dispatch J (login J uname pw remember rnd) s) = Inr (Failure ''Invalid credentials'')
      \<longleftrightarrow> \<not> (\<exists>a\<in>set (users s). username a = uname \<and> password a = pw))
   \<and> (\<not> (\<exists>a\<in>set (users s). username a = uname \<and> password a = pw) \<longrightarrow>
        dispatch J (login J uname pw remember rnd) s = (Inr (Failure ''Invalid credentials''), s))
   \<and> ((\<exists>a\<in>set (users s). username a = uname \<and> password a = pw) \<longrightarrow>
        fst (dispatch J (login J uname pw remember rnd) s) = Inr Success
        \<and> (\<exists>a\<in>set (users s). username a = uname \<and> password a = pw
              \<and> user (snd (dispatch J (login J uname pw remember rnd) s))
                   = Some \<lparr>username = username a, name = name a\<rparr>)
        \<and> token (snd (dispatch J (login J uname pw remember rnd) s)) = Some (''t_'' @ rnd)
        \<and> isAuthenticated (snd (dispatch J (login J uname pw remember rnd) s))
        \<and> (\<exists>a\<in>set (users s). \<exists>s'.
              username a = uname \<and> password a = pw
              \<and> dispatch J (login J uname pw remember rnd) s = (Inr Success, s')
              \<and> s' = snd (persistAuth J \<lparr>username = username a, name = name a\<rparr> (''t_'' @ rnd) remember
                          (s\<lparr>user := Some \<lparr>username = username a, name = name a\<rparr>,
                             token := Some (''t_'' @ rnd)\<rparr>))
              \<and> users s' = users s
              \<and> user s' = Some \<lparr>username = username a, name = name a\<rparr>
              \<and> token s' = Some (''t_'' @ rnd)
              \<and> (\<exists>n. 0 < n \<and> n \<le> 4
                    \<and> journal s' = journal s
                         @ take n (activation_calls J \<lparr>username = username a, name = name a\<rparr>
                                     (''t_'' @ rnd) remember))
              \<and> (console s' = console s \<longrightarrow>
                    journal s' = journal s
                      @ activation_calls J \<lparr>username = username a, name = name a\<rparr>
                          (''t_'' @ rnd) remember
                    \<and> holds (storage_of (if remember then Local else Session) s') AUTH_USER_KEY
                         = Some (stringify_user J \<lparr>username = username a, name = name a\<rparr>)
                    \<and> holds (storage_of (if remember then Local else Session) s') AUTH_TOKEN_KEY
                         = Some (''t_'' @ rnd)
                    \<and> pair_absent (storage_of (if remember then Session else Local) s'))
              \<and> (console s' \<noteq> console s \<longrightarrow>
                    (\<exists>e. console s' = console s @ [(''persistAuth error'', e)]))))"
proof (cases "find (\<lambda>u. username u = uname \<and> password u = pw) (users s)")
  case None
  then have "\<not> (\<exists>a\<in>set (users s). username a = uname \<and> password a = pw)"
    by (auto simp add: find_None_iff)
  with None show ?thesis
    by (simp add: login_outcome)
next
  case (Some a)
  then have a: "a \<in> set (users s)" "username a = uname" "password a = pw"
    by (auto dest: find_Some_holds)
  let ?pu = "\<lparr>username = username a, name = name a\<rparr>"
  let ?s' = "activated J ?pu rnd remember s"
  have r: "dispatch J (login J uname pw remember rnd) s = (Inr Success, ?s')"
    by (simp add: login_outcome Some)
  have ex: "\<exists>a\<in>set (users s). username a = uname \<and> password a = pw"
    using a by blast
  have old: "fst (dispatch J (login J uname pw remember rnd) s) = Inr Success
        \<and> (\<exists>a\<in>set (users s). username a = uname \<and> password a = pw
              \<and> user (snd (dispatch J (login J uname pw remember rnd) s))
                   = Some \<lparr>username = username a, name = name a\<rparr>)
        \<and> token (snd (dispatch J (login J uname pw remember rnd) s)) = Some (''t_'' @ rnd)
        \<and> isAuthenticated (snd (dispatch J (login J uname pw remember rnd) s))"
    using a by (auto simp add: r activated_memory isAuthenticated_def)
  have new: "\<exists>a\<in>set (users s). \<exists>s'.
              username a = uname \<and> password a = pw
              \<and> dispatch J (login J uname pw remember rnd) s = (Inr Success, s')
              \<and> s' = snd (persistAuth J \<lparr>username = username a, name = name a\<rparr> (''t_'' @ rnd) remember
                          (s\<lparr>user := Some \<lparr>username = username a, name = name a\<rparr>,
                             token := Some (''t_'' @ rnd)\<rparr>))
              \<and> users s' = users s
              \<and> user s' = Some \<lparr>username = username a, name = name a\<rparr>
              \<and> token s' = Some (''t_'' @ rnd)
              \<and> (\<exists>n. 0 < n \<and> n \<le> 4
                    \<and> journal s' = journal s
                         @ take n (activation_calls J \<lparr>username = username a, name = name a\<rparr>
                                     (''t_'' @ rnd) remember))
              \<and> (console s' = console s \<longrightarrow>
                    journal s' = journal s
                      @ activation_calls J \<lparr>username = username a, name = name a\<rparr>
                          (''t_'' @ rnd) remember
                    \<and> holds (storage_of (if remember then Local else Session) s') AUTH_USER_KEY
                         = Some (stringify_user J \<lparr>username = username a, name = name a\<rparr>)
                    \<and> holds (storage_of (if remember then Local else Session) s') AUTH_TOKEN_KEY
                         = Some (''t_'' @ rnd)
                    \<and> pair_absent (storage_of (if remember then Session else Local) s'))
              \<and> (console s' \<noteq> console s \<longrightarrow>
                    (\<exists>e. console s' = console s @ [(''persistAuth error'', e)]))"
  proof (intro bexI[of _ a] exI[of _ ?s'] conjI)
    show "a \<in> set (users s)" by (rule a(1))
    show "username a = uname" "password a = pw" by (rule a(2), rule a(3))
    show "dispatch J (login J uname pw remember rnd) s = (Inr Success, ?s')" by (rule r)
    show "?s' = snd (persistAuth J ?pu (''t_'' @ rnd) remember
                  (s\<lparr>user := Some ?pu, token := Some (''t_'' @ rnd)\<rparr>))"
      by (simp add: activated_def)
    show "users ?s' = users s" "user ?s' = Some ?pu" "token ?s' = Some (''t_'' @ rnd)"
      by (simp_all add: activated_memory)
    note e = activated_effect[of J ?pu rnd remember s]
    show "\<exists>n. 0 < n \<and> n \<le> 4 \<and> journal ?s' = journal s
            @ take n (activation_calls J ?pu (''t_'' @ rnd) remember)"
      using e by blast
    show "console ?s' = console s \<longrightarrow>
            journal ?s' = journal s @ activation_calls J ?pu (''t_'' @ rnd) remember
            \<and> holds (storage_of (if remember then Local else Session) ?s') AUTH_USER_KEY
                 = Some (stringify_user J ?pu)
            \<and> holds (storage_of (if remember then Local else Session) ?s') AUTH_TOKEN_KEY
                 = Some (''t_'' @ rnd)
            \<and> pair_absent (storage_of (if remember then Session else Local) ?s')"
      using e by blast
    show "console ?s' \<noteq> console s \<longrightarrow>
            (\<exists>e. console ?s' = console s @ [(''persistAuth error'', e)])"
      using e by blast
  qed
  have iff: "fst (dispatch J (login J uname pw remember rnd) s) \<noteq> Inr (Failure ''Invalid credentials'')"
    by (simp add: r)
  from ex old new iff show ?thesis by blast
qed


theorem login_invalid_iff_no_match_witness:
  "fst (dispatch sample_json (login sample_json ''alice'' ''pw1'' False ''zz81'') alice_registered)
     = Inr Success
   \<and> token (snd (dispatch sample_json (login sample_json ''alice'' ''pw1'' False ''zz81'')
        alice_registered)) = Some ''t_zz81''
   \<and> console (snd (dispatch sample_json (login sample_json ''alice'' ''pw1'' False ''zz81'')
        alice_registered)) = console alice_registered
   \<and> journal (snd (dispatch sample_json (login sample_json ''alice'' ''pw1'' False ''zz81'')
        alice_registered))
       = journal alice_registered
         @ [SetItem Session AUTH_USER_KEY (print_user \<lparr>username = ''alice'', name = Some ''Alice''\<rparr>),
            SetItem Session AUTH_TOKEN_KEY ''t_zz81'',
            RemoveItem Local AUTH_USER_KEY, RemoveItem Local AUTH_TOKEN_KEY]
   \<and> holds (sessionStorage (snd (dispatch sample_json (login sample_json ''alice'' ''pw1'' False ''zz81'')
        alice_registered))) AUTH_TOKEN_KEY = Some ''t_zz81''
   \<and> pair_absent (localStorage (snd (dispatch sample_json
        (login sample_json ''alice'' ''pw1'' False ''zz81'') alice_registered)))
   \<and> dispatch sample_json (login sample_json ''alice'' ''pw2'' False ''zz81'') alice_registered
     = (Inr (Failure ''Invalid credentials''), alice_registered)"
proof -
  let ?R = "dispatch sample_json (login sample_json ''alice'' ''pw1'' False ''zz81'') alice_registered"
  let ?al = "\<lparr>username = ''alice'', name = Some ''Alice'', password = ''pw1''\<rparr>"
  have same: "console (snd ?R) = console alice_registered"
    by code_simp
  note t = login_invalid_iff_no_match[of sample_json "''alice''" "''pw1''" False "''zz81''"
      alice_registered]
  have m: "\<exists>a\<in>set (users alice_registered). username a = ''alice'' \<and> password a = ''pw1''"
    by (simp add: users_alice_registered)
  from t m obtain a s' where a: "a \<in> set (users alice_registered)"
    and r: "?R = (Inr Success, s')"
    and tk: "token s' = Some (''t_'' @ ''zz81'')"
    and c: "console s' = console alice_registered \<longrightarrow>
              journal s' = journal alice_registered
                @ activation_calls sample_json \<lparr>username = username a, name = name a\<rparr>
                    (''t_'' @ ''zz81'') False
              \<and> holds (storage_of (if False then Local else Session) s') AUTH_USER_KEY
                   = Some (stringify_user sample_json \<lparr>username = username a, name = name a\<rparr>)
              \<and> holds (storage_of (if False then Local else Session) s') AUTH_TOKEN_KEY
                   = Some (''t_'' @ ''zz81'')
              \<and> pair_absent (storage_of (if False then Session else Local) s')"
    by blast
  from a have a': "a = ?al" by (simp add: users_alice_registered)
  have s': "snd ?R = s'" by (simp add: r)
  from same have "console s' = console alice_registered" by (simp add: s')
  with c have c': "journal s' = journal alice_registered
         @ [SetItem Session AUTH_USER_KEY (print_user \<lparr>username = ''alice'', name = Some ''Alice''\<rparr>),
            SetItem Session AUTH_TOKEN_KEY ''t_zz81'',
            RemoveItem Local AUTH_USER_KEY, RemoveItem Local AUTH_TOKEN_KEY]"
    "holds (sessionStorage s') AUTH_TOKEN_KEY = Some ''t_zz81''"
    "pair_absent (localStorage s')"
    by (simp_all add: a' activation_calls_def sample_json_def)
  have fs: "fst ?R = Inr Success" by (simp add: r)
  have tk': "token s' = Some ''t_zz81''" using tk by simp
  have f: "dispatch sample_json (login sample_json ''alice'' ''pw2'' False ''zz81'') alice_registered
     = (Inr (Failure ''Invalid credentials''), alice_registered)"
    using login_invalid_iff_no_match[of sample_json "''alice''" "''pw2''" False "''zz81''"
      alice_registered]
    by (simp add: users_alice_registered)
  show ?thesis
    unfolding s' using fs tk' same[unfolded s'] c' f by simp
qed

end
